theory Spec2Isabelle
  imports Main "HOL-Library.AList"
begin

section \<open>JavaScript values and library objects\<close>

text \<open>
  A thrown JavaScript value, as the fetcher uses it: the text of \<open>err.toString()\<close> and
  the text \<open>util.inspect(err, ...)\<close> prints for it.
\<close>

datatype js_error = JsError (err_toString: string) (err_inspect: string)

definition TypeError :: js_error where
  "TypeError = JsError ''TypeError'' ''TypeError''"

definition startsWith :: "string \<Rightarrow> string \<Rightarrow> bool" where
  "startsWith s p = (take (length p) s = p)"

text \<open>
  The \<open>lru-cache\<close> package: a capacity and the entries, most recently used first.
  \<open>has\<close> does not touch the order, \<open>get\<close> moves the entry to the front, \<open>set\<close>
  puts the entry at the front and drops the entries beyond the capacity.
\<close>

record ('k, 'v) lru =
  lru_max :: nat
  lru_items :: "('k \<times> 'v) list"

definition LRU_new :: "nat \<Rightarrow> ('k, 'v) lru" where
  "LRU_new m = \<lparr>lru_max = m, lru_items = []\<rparr>"

definition lru_has :: "('k, 'v) lru \<Rightarrow> 'k \<Rightarrow> bool" where
  "lru_has c k = (case map_of (lru_items c) k of None \<Rightarrow> False | Some v \<Rightarrow> True)"

definition lru_get :: "('k, 'v) lru \<Rightarrow> 'k \<Rightarrow> 'v option \<times> ('k, 'v) lru" where
  "lru_get c k =
     (case map_of (lru_items c) k of
        None \<Rightarrow> (None, c)
      | Some v \<Rightarrow> (Some v, c\<lparr>lru_items := (k, v) # filter (\<lambda>e. fst e \<noteq> k) (lru_items c)\<rparr>))"

definition lru_set :: "('k, 'v) lru \<Rightarrow> 'k \<Rightarrow> 'v \<Rightarrow> ('k, 'v) lru" where
  "lru_set c k v =
     c\<lparr>lru_items := take (lru_max c) ((k, v) # filter (\<lambda>e. fst e \<noteq> k) (lru_items c))\<rparr>"

section \<open>The remote services and the state of the process\<close>

text \<open>
  One entry of an explorer reply's \<open>result\<close> array, with the fields the fetcher reads.
\<close>

record entry =
  tx_hash :: string
  tx_from :: string
  tx_to :: string
  tx_value :: string
  tx_blockNumber :: string
  tx_SourceCode :: string

record response =
  resp_message :: string
  resp_result :: "entry list"

text \<open>
  The explorer URLs of \<open>getEtherscanAddressUrl\<close>, \<open>getEtherscanAddressInternalTxsUrl\<close>,
  \<open>getSourceCodeUrl\<close> and \<open>getLogsUrl\<close>, by their parameters. The API key, drawn at
  random among the configured ones, is left out: no reply depends on it here.
\<close>

datatype request =
    AddressUrl string nat nat
  | AddressInternalTxsUrl string nat nat
  | SourceCodeUrl string nat
  | LogsUrl string int nat

text \<open>
  The provider, the contracts and the HTTP services. The first argument of each is the
  number of remote calls the process has made before this one, so that a service may
  fail at one call and answer at the next. \<open>Inl\<close> is a rejected promise.
\<close>

record remote =
  provider_getCode :: "nat \<Rightarrow> string \<Rightarrow> js_error + string"
  provider_getStorageAt :: "nat \<Rightarrow> string \<Rightarrow> nat \<Rightarrow> nat \<Rightarrow> js_error + string"
  provider_getTransactionCount :: "nat \<Rightarrow> string \<Rightarrow> js_error + nat"
  contract_owner :: "nat \<Rightarrow> string \<Rightarrow> nat \<Rightarrow> js_error + string"
  contract_getOwner :: "nat \<Rightarrow> string \<Rightarrow> nat \<Rightarrow> js_error + string"
  fetch_text :: "nat \<Rightarrow> string \<Rightarrow> js_error + string"
  fetch_labels :: "nat \<Rightarrow> string \<Rightarrow> string \<Rightarrow> js_error + string list"
  fetch_explorer :: "nat \<Rightarrow> request \<Rightarrow> js_error + response"

text \<open>
  Modelled from the spec: \<open>createErrorAlert\<close> of \<open>./findings\<close> and \<open>ErrorCache.add\<close>
  of \<open>./error.cache\<close> are not among the sources. The error collector is process-wide and
  append-only; a record keeps the three arguments \<open>createErrorAlert\<close> is called with.
\<close>

record error_alert =
  alert_error :: string
  alert_source :: string
  alert_stack :: string

definition createErrorAlert :: "string \<Rightarrow> string \<Rightarrow> string \<Rightarrow> error_alert" where
  "createErrorAlert e src stack = \<lparr>alert_error = e, alert_source = src, alert_stack = stack\<rparr>"

definition ErrorCache_add :: "error_alert list \<Rightarrow> error_alert \<Rightarrow> error_alert list" where
  "ErrorCache_add errs a = errs @ [a]"

text \<open>
  The five caches of a \<open>DataFetcher\<close>, the error collector, and two counters of what the
  process has done: the remote calls issued and the one-second waits
  (\<open>setTimeout(resolve, 1000)\<close>) it has sat through.
\<close>

record world =
  eoaCache :: "(string, bool) lru"
  codeCache :: "(string, string) lru"
  functionCache :: "(string, string) lru"
  nonceCache :: "(string, nat) lru"
  ownerCache :: "(string, string) lru"
  ErrorCache :: "error_alert list"
  calls :: nat
  sleeps :: nat

definition DataFetcher_new :: world where
  "DataFetcher_new =
     \<lparr>eoaCache = LRU_new 50000, codeCache = LRU_new 10000, functionCache = LRU_new 10000,
      nonceCache = LRU_new 50000, ownerCache = LRU_new 10000,
      ErrorCache = [], calls = 0, sleeps = 0\<rparr>"

definition called :: "world \<Rightarrow> world" where
  "called w = w\<lparr>calls := calls w + 1\<rparr>"

definition slept :: "world \<Rightarrow> world" where
  "slept w = w\<lparr>sleeps := sleeps w + 1\<rparr>"

definition logError :: "js_error \<Rightarrow> string \<Rightarrow> world \<Rightarrow> world" where
  "logError err src w =
     w\<lparr>ErrorCache := ErrorCache_add (ErrorCache w)
          (createErrorAlert (err_toString err) src (err_inspect err))\<rparr>"

definition maxTries :: nat where
  "maxTries = 3"

section \<open>The provider operations of fetcher.ts\<close>

text \<open>
  Each \<open>while (tries < maxTries)\<close> loop is a function of \<open>tries\<close>: a call that returns
  is the \<open>break\<close>, a rejected call is the \<open>catch\<close> (count the try, record the error at
  the third one, wait a second, go round again). A loop that ends without a \<open>break\<close>
  leaves its variable as it was declared: \<open>undefined\<close> (\<open>None\<close>), or 100000 for the
  nonce. Where \<open>has\<close> answered \<open>true\<close>, \<open>get\<close> returns the entry; the branch for a
  missing entry of \<open>get\<close> is there for totality only.
\<close>

function getCode_loop :: "remote \<Rightarrow> string \<Rightarrow> nat \<Rightarrow> world \<Rightarrow> string option \<times> world" where
  "getCode_loop env address tries w =
     (if tries < maxTries then
        (case provider_getCode env (calls w) address of
           Inr code \<Rightarrow> (Some code, called w)
         | Inl err \<Rightarrow>
             getCode_loop env address (tries + 1)
               (slept (if tries + 1 = maxTries
                       then logError err ''fetcher.getCode'' (called w) else called w)))
      else (None, w))"
  by pat_completeness auto
termination
  by (relation "measure (\<lambda>(env, address, tries, w). maxTries - tries)") auto

declare getCode_loop.simps [simp del]

definition getCode :: "remote \<Rightarrow> string \<Rightarrow> world \<Rightarrow> string option \<times> world" where
  "getCode env address w =
     (if lru_has (codeCache w) address then
        (case lru_get (codeCache w) address of (v, c) \<Rightarrow> (v, w\<lparr>codeCache := c\<rparr>))
      else
        (case getCode_loop env address 0 w of
           (None, w1) \<Rightarrow> (None, w1)
         | (Some code, w1) \<Rightarrow>
             (Some code,
              if code \<noteq> '''' \<and> code \<noteq> ''0x''
              then w1\<lparr>codeCache := lru_set (codeCache w1) address code\<rparr> else w1)))"

function getStorageSlot_loop ::
  "remote \<Rightarrow> string \<Rightarrow> nat \<Rightarrow> nat \<Rightarrow> nat \<Rightarrow> world \<Rightarrow> string option \<times> world" where
  "getStorageSlot_loop env address slot blockNumber tries w =
     (if tries < maxTries then
        (case provider_getStorageAt env (calls w) address slot blockNumber of
           Inr storageSlot \<Rightarrow> (Some storageSlot, called w)
         | Inl err \<Rightarrow>
             getStorageSlot_loop env address slot blockNumber (tries + 1)
               (slept (if tries + 1 = maxTries
                       then logError err ''fetcher.getStorageSlot'' (called w) else called w)))
      else (None, w))"
  by pat_completeness auto
termination
  by (relation "measure (\<lambda>(env, address, slot, blockNumber, tries, w). maxTries - tries)") auto

declare getStorageSlot_loop.simps [simp del]

definition getStorageSlot ::
  "remote \<Rightarrow> string \<Rightarrow> nat \<Rightarrow> nat \<Rightarrow> world \<Rightarrow> string option \<times> world" where
  "getStorageSlot env address slot blockNumber w =
     getStorageSlot_loop env address slot blockNumber 0 w"

definition isEoa :: "remote \<Rightarrow> string \<Rightarrow> world \<Rightarrow> bool option \<times> world" where
  "isEoa env address w =
     (if lru_has (eoaCache w) address then
        (case lru_get (eoaCache w) address of (v, c) \<Rightarrow> (v, w\<lparr>eoaCache := c\<rparr>))
      else
        (case getCode env address w of
           (None, w1) \<Rightarrow> (None, w1)
         | (Some code, w1) \<Rightarrow>
             if code = '''' then (None, w1)
             else (Some (code = ''0x''),
                   w1\<lparr>eoaCache := lru_set (eoaCache w1) address (code = ''0x'')\<rparr>)))"

function getNonce_loop :: "remote \<Rightarrow> string \<Rightarrow> nat \<Rightarrow> nat \<Rightarrow> world \<Rightarrow> nat \<times> world" where
  "getNonce_loop env address nonce tries w =
     (if tries < maxTries then
        (case provider_getTransactionCount env (calls w) address of
           Inr n \<Rightarrow> (n, (called w)\<lparr>nonceCache := lru_set (nonceCache w) address n\<rparr>)
         | Inl err \<Rightarrow>
             getNonce_loop env address nonce (tries + 1)
               (slept (if tries + 1 = maxTries
                       then logError err ''fetcher.getNonce'' (called w) else called w)))
      else (nonce, w))"
  by pat_completeness auto
termination
  by (relation "measure (\<lambda>(env, address, nonce, tries, w). maxTries - tries)") auto

declare getNonce_loop.simps [simp del]

definition getNonce :: "remote \<Rightarrow> string \<Rightarrow> world \<Rightarrow> nat \<times> world" where
  "getNonce env address w =
     (if lru_has (nonceCache w) address then
        (case lru_get (nonceCache w) address of
           (None, c) \<Rightarrow> (0, w\<lparr>nonceCache := c\<rparr>)
         | (Some v, c) \<Rightarrow> (v, w\<lparr>nonceCache := c\<rparr>))
      else getNonce_loop env address 100000 0 w)"

definition maxRetries :: nat where
  "maxRetries = 3"




definition signatureDbUrl :: string where
  "signatureDbUrl = ''https://raw.githubusercontent.com/ethereum-lists/4bytes/master/signatures/''"

text \<open>
  \<open>getSignature\<close> either throws (\<open>Inl\<close>) or returns a string or \<open>undefined\<close>.
\<close>

function getSignature_loop ::
  "remote \<Rightarrow> string \<Rightarrow> nat \<Rightarrow> world \<Rightarrow> (js_error + string option) \<times> world" where
  "getSignature_loop env url tries w =
     (if tries < maxTries then
        (case fetch_text env (calls w) url of
           Inr response \<Rightarrow> (Inr (Some response), called w)
         | Inl err \<Rightarrow>
             if tries + 1 = maxTries then (Inl err, called w)
             else getSignature_loop env url (tries + 1) (slept (called w)))
      else (Inr None, w))"
  by pat_completeness auto
termination
  by (relation "measure (\<lambda>(env, url, tries, w). maxTries - tries)") auto

declare getSignature_loop.simps [simp del]

definition getSignature ::
  "remote \<Rightarrow> string \<Rightarrow> world \<Rightarrow> (js_error + string option) \<times> world" where
  "getSignature env bytes w =
     (if lru_has (functionCache w) bytes then
        (case lru_get (functionCache w) bytes of (v, c) \<Rightarrow> (Inr v, w\<lparr>functionCache := c\<rparr>))
      else
        (case getSignature_loop env (signatureDbUrl @ take 8 (drop 2 bytes)) 0 w of
           (Inl err, w1) \<Rightarrow> (Inl err, w1)
         | (Inr None, w1) \<Rightarrow> (Inr None, w1)
         | (Inr (Some response), w1) \<Rightarrow>
             if response \<noteq> '''' \<and> \<not> startsWith response ''404''
             then (Inr (Some response),
                   w1\<lparr>functionCache := lru_set (functionCache w1) bytes response\<rparr>)
             else (Inr None, w1)))"

text \<open>The decimal numeral of a number, as a template literal prints it.\<close>

fun show_nat :: "nat \<Rightarrow> string" where
  "show_nat n =
     (if n < 10 then [''0123456789'' ! n]
      else show_nat (n div 10) @ [''0123456789'' ! (n mod 10)])"

definition getOwner :: "remote \<Rightarrow> string \<Rightarrow> nat \<Rightarrow> world \<Rightarrow> string \<times> world" where
  "getOwner env address block w =
     (let key = address @ '' - '' @ show_nat block in
      if lru_has (ownerCache w) key then
        (case lru_get (ownerCache w) key of
           (None, c) \<Rightarrow> ('''', w\<lparr>ownerCache := c\<rparr>)
         | (Some v, c) \<Rightarrow> (v, w\<lparr>ownerCache := c\<rparr>))
      else
        (case contract_owner env (calls w) address block of
           Inr owner \<Rightarrow> (owner, (called w)\<lparr>ownerCache := lru_set (ownerCache w) key owner\<rparr>)
         | Inl err \<Rightarrow>
             (case contract_getOwner env (calls w + 1) address block of
                Inr owner \<Rightarrow>
                  (owner, (called (called w))\<lparr>ownerCache := lru_set (ownerCache w) key owner\<rparr>)
              | Inl err2 \<Rightarrow>
                  ('''', (called (called w))\<lparr>ownerCache := lru_set (ownerCache w) key ''''\<rparr>))))"

section \<open>The explorer operations of fetcher.ts\<close>

text \<open>
  \<open>./config\<close> and \<open>./utils\<close> are not among the sources: the two thresholds and the
  chains that \<open>etherscanApis\<close> has an entry for are parameters. Reading the URL of a
  chain without an entry throws a \<open>TypeError\<close>.
\<close>

record config =
  toTxCountThreshold :: nat
  fromTxCountThreshold :: nat
  etherscanApis :: "nat \<Rightarrow> bool"

definition getEtherscanAddressUrl :: "config \<Rightarrow> string \<Rightarrow> nat \<Rightarrow> nat \<Rightarrow> js_error + request" where
  "getEtherscanAddressUrl cfg address chainId offset =
     (if etherscanApis cfg chainId then Inr (AddressUrl address chainId (offset + 1))
      else Inl TypeError)"



definition getLogsUrl :: "config \<Rightarrow> string \<Rightarrow> int \<Rightarrow> nat \<Rightarrow> js_error + request" where
  "getLogsUrl cfg address blockNumber chainId =
     (if etherscanApis cfg chainId then Inr (LogsUrl address blockNumber chainId)
      else Inl TypeError)"

definition softFailure :: "response \<Rightarrow> bool" where
  "softFailure result =
     (startsWith (resp_message result) ''NOTOK'' \<or>
      startsWith (resp_message result) ''Query Timeout'' \<or>
      startsWith (resp_message result) ''No transactions found'')"

text \<open>
  The retry loop that every explorer operation repeats word for word:
  \<open>for (let attempt = 1; attempt <= maxRetries; attempt++)\<close>. \<open>Some result\<close> is the
  \<open>break\<close> with a usable reply; \<open>None\<close> is the \<open>return\<close> of the final attempt, where
  each operation returns its own fallback. The URL is built inside the \<open>try\<close>, so a
  URL that throws is a failed attempt without a call. There is no wait between attempts.
\<close>

function explorerLoop ::
  "remote \<Rightarrow> js_error + request \<Rightarrow> nat \<Rightarrow> world \<Rightarrow> response option \<times> world" where
  "explorerLoop env url attempt w =
     (if attempt \<le> maxRetries then
        (case url of
           Inl err \<Rightarrow>
             if attempt = maxRetries then (None, w) else explorerLoop env url (attempt + 1) w
         | Inr u \<Rightarrow>
             (case fetch_explorer env (calls w) u of
                Inl err \<Rightarrow>
                  if attempt = maxRetries then (None, called w)
                  else explorerLoop env url (attempt + 1) (called w)
              | Inr result \<Rightarrow>
                  if softFailure result then
                    (if attempt = maxRetries then (None, called w)
                     else explorerLoop env url (attempt + 1) (called w))
                  else (Some result, called w)))
      else (None, w))"
  by pat_completeness auto
termination
  by (relation "measure (\<lambda>(env, url, attempt, w). maxRetries + 1 - attempt)") auto

declare explorerLoop.simps [simp del]





text \<open>
  \<open>haveInteractedWithSameAddress\<close>. \<open>victimInteractions\<close> and \<open>frequencyMap\<close> are
  objects used as dictionaries: association lists in the order the keys were first
  written. The legs that \<open>Promise.all\<close> runs are taken in the order of \<open>victims\<close>;
  each leg writes the shared flag only to set it, and the dictionary only under its own
  victim.
\<close>

definition Array_from_Set :: "'a list \<Rightarrow> 'a list" where
  "Array_from_Set xs = rev (remdups (rev xs))"

definition victimLeg ::
  "config \<Rightarrow> remote \<Rightarrow> string \<Rightarrow> nat \<Rightarrow> string
     \<Rightarrow> bool \<times> (string \<times> string list) list \<times> world
     \<Rightarrow> bool \<times> (string \<times> string list) list \<times> world" where
  "victimLeg cfg env attacker chainId victim acc =
     (case acc of (flag, victimInteractions, w) \<Rightarrow>
        (case explorerLoop env (getEtherscanAddressUrl cfg victim chainId 100) 1 w of
           (None, w1) \<Rightarrow> (True, victimInteractions, w1)
         | (Some result, w1) \<Rightarrow>
             (let toAddresses =
                    filter (\<lambda>to. to \<notin> set [attacker, victim]) (map tx_to (resp_result result))
              in (flag, AList.update victim (Array_from_Set toAddresses) victimInteractions, w1))))"

definition addVictim ::
  "(string \<times> string list) list \<Rightarrow> string \<Rightarrow> string \<Rightarrow> (string \<times> string list) list" where
  "addVictim frequencyMap victim toAddress =
     (let fm = (case map_of frequencyMap toAddress of
                  None \<Rightarrow> AList.update toAddress [] frequencyMap
                | Some vs \<Rightarrow> frequencyMap);
          vs = (case map_of fm toAddress of None \<Rightarrow> [] | Some vs \<Rightarrow> vs)
      in if victim \<in> set vs then fm else AList.update toAddress (vs @ [victim]) fm)"

definition frequencies :: "(string \<times> string list) list \<Rightarrow> (string \<times> string list) list" where
  "frequencies victimInteractions =
     foldl (\<lambda>fm (victim, toAddresses). foldl (\<lambda>fm toAddress. addVictim fm victim toAddress) fm toAddresses)
       [] victimInteractions"

definition haveInteractedWithSameAddress ::
  "config \<Rightarrow> remote \<Rightarrow> string \<Rightarrow> string list \<Rightarrow> nat \<Rightarrow> world \<Rightarrow> bool \<times> world" where
  "haveInteractedWithSameAddress cfg env attacker victims chainId w =
     (case foldl (\<lambda>acc victim. victimLeg cfg env attacker chainId victim acc) (False, [], w) victims of
        (flag, victimInteractions, w1) \<Rightarrow>
          (let frequencyMap = frequencies victimInteractions;
               majorityThreshold = (length victims + 1) div 2
           in (flag \<or> list_ex (\<lambda>(address, vs). length vs \<ge> majorityThreshold) frequencyMap, w1)))"

text \<open>
  \<open>parseInt\<close> without a radix: white space, a sign, \<open>0x\<close> for base sixteen, then the
  digits; \<open>None\<close> is \<open>NaN\<close>. The integer read is rounded to the nearest double, ties to
  the even mantissa (\<open>toDouble\<close>; every integer below \<open>2 ^ 53\<close> is a double). Only the
  white space of ASCII is modelled, and no integer beyond the range of the doubles.
\<close>

fun bitlen :: "nat \<Rightarrow> nat" where
  "bitlen n = (if n = 0 then 0 else Suc (bitlen (n div 2)))"

definition toDouble :: "nat \<Rightarrow> nat" where
  "toDouble n =
     (let e = bitlen n - 53; q = n div 2 ^ e; r = n mod 2 ^ e
      in if 2 * r < 2 ^ e \<or> (2 * r = 2 ^ e \<and> even q) then q * 2 ^ e else (q + 1) * 2 ^ e)"





text \<open>\<open>hasValidEntries\<close>: the \<open>forEach\<close> over the entries with their indices.\<close>

definition slice :: "nat \<Rightarrow> nat \<Rightarrow> 'a list \<Rightarrow> 'a list" where
  "slice a b xs = take (b - a) (drop a xs)"

fun findIndex :: "('a \<Rightarrow> bool) \<Rightarrow> 'a list \<Rightarrow> int" where
  "findIndex P [] = - 1"
| "findIndex P (x # xs) =
     (if P x then 0 else (let r = findIndex P xs in if r = - 1 then - 1 else r + 1))"

definition hasZeroValue :: "entry list \<Rightarrow> bool" where
  "hasZeroValue prevEntries = list_ex (\<lambda>prevEntry. tx_value prevEntry = ''0'') prevEntries"

definition hasDuplicateFrom :: "entry list \<Rightarrow> bool" where
  "hasDuplicateFrom prevEntries =
     list_ex (\<lambda>j. findIndex (\<lambda>otherPrevEntry. tx_from otherPrevEntry = tx_from (prevEntries ! j))
                    prevEntries \<noteq> int j)
       [0..<length prevEntries]"

definition validEntriesScan :: "string \<Rightarrow> entry list \<Rightarrow> bool" where
  "validEntriesScan hash entries =
     foldl (\<lambda>hasValid i.
              if tx_hash (entries ! i) = hash \<and> i \<ge> 3 then
                (let prevEntries = slice (i - 3) i entries
                 in if \<not> hasZeroValue prevEntries \<and> \<not> hasDuplicateFrom prevEntries
                    then True else hasValid)
              else hasValid)
       False [0..<length entries]"

definition hasValidEntries ::
  "config \<Rightarrow> remote \<Rightarrow> string \<Rightarrow> nat \<Rightarrow> string \<Rightarrow> world \<Rightarrow> bool \<times> world" where
  "hasValidEntries cfg env address chainId hash w =
     (case explorerLoop env (getEtherscanAddressUrl cfg address chainId (toTxCountThreshold cfg)) 1 w of
        (None, w1) \<Rightarrow> (False, w1)
      | (Some result, w1) \<Rightarrow> (validEntriesScan hash (resp_result result), w1))"




definition getNumberOfLogs ::
  "config \<Rightarrow> remote \<Rightarrow> string \<Rightarrow> int \<Rightarrow> nat \<Rightarrow> world \<Rightarrow> nat \<times> world" where
  "getNumberOfLogs cfg env address blockNumber chainId w =
     (case explorerLoop env (getLogsUrl cfg address blockNumber chainId) 1 w of
        (None, w1) \<Rightarrow> (10, w1)
      | (Some result, w1) \<Rightarrow> (length (resp_result result), w1))"


declare bitlen.simps [simp del]

declare show_nat.simps [simp del]

section \<open>The large-position bot (Alpaca-Finance-Agents/Large-Position-Alert/src/agent.ts)\<close>

text \<open>
  A log that \<open>txEvent.filterLog(workEventAbi)\<close> returns: the emitting address and the two
  \<open>uint256\<close> arguments of \<open>Work\<close>. The transaction event is the list of these logs.
\<close>

record workEvent =
  ev_address :: string
  ev_id :: nat
  ev_loan :: nat

datatype FindingSeverity = SeverityUnknown | SeverityInfo | SeverityLow | SeverityMedium
  | SeverityHigh | SeverityCritical

datatype FindingType = TypeUnknown | TypeExploit | TypeSuspicious | TypeDegraded | TypeInfo

text \<open>
  The metadata holds the values whose \<open>toString()\<close> the source stores: the position id
  as the number \<open>parseInt\<close> gave, the loan amount as the \<open>bigint\<close> made of it.
\<close>

record metadata =
  md_positionId :: nat
  md_loanAmount :: int
  md_vault :: string

record finding =
  finding_name :: string
  finding_description :: string
  finding_alertId :: string
  finding_severity :: FindingSeverity
  finding_type :: FindingType
  finding_metadata :: metadata

definition createFinding :: "nat \<Rightarrow> int \<Rightarrow> string \<Rightarrow> finding" where
  "createFinding posId loanAmount vaultAddress =
     \<lparr>finding_name = ''Large Position Event'',
      finding_description = ''Large Position Has Been Taken'',
      finding_alertId = ''ALPACA-1'',
      finding_severity = SeverityInfo,
      finding_type = TypeInfo,
      finding_metadata =
        \<lparr>md_positionId = posId, md_loanAmount = loanAmount, md_vault = vaultAddress\<rparr>\<rparr>"

text \<open>
  \<open>parseInt\<close> of a \<open>BigNumber\<close> reads back its decimal numeral: the value, rounded to
  the nearest double. \<open>BigInt\<close> of that number is the same integer.
\<close>

definition parseInt_BigNumber :: "nat \<Rightarrow> nat" where
  "parseInt_BigNumber n = toDouble n"

fun handleTransaction_loop ::
  "(string \<rightharpoonup> int) \<Rightarrow> workEvent list \<Rightarrow> finding list \<Rightarrow> finding list" where
  "handleTransaction_loop vaultsMap [] findings = findings"
| "handleTransaction_loop vaultsMap (ev # workEvents) findings =
     handleTransaction_loop vaultsMap workEvents
       (case vaultsMap (ev_address ev) of
          None \<Rightarrow> findings
        | Some vaultThreshold \<Rightarrow>
            if vaultThreshold \<noteq> 0 \<and> int (parseInt_BigNumber (ev_loan ev)) > vaultThreshold
            then findings @ [createFinding (parseInt_BigNumber (ev_id ev))
                               (int (parseInt_BigNumber (ev_loan ev))) (ev_address ev)]
            else findings)"

definition provideHandleTransaction :: "(string \<rightharpoonup> int) \<Rightarrow> workEvent list \<Rightarrow> finding list" where
  "provideHandleTransaction vaultsMap workEvents = handleTransaction_loop vaultsMap workEvents []"

definition toLowerCase :: "string \<Rightarrow> string" where
  "toLowerCase s =
     map (\<lambda>c. case map_of (zip ''ABCDEFGHIJKLMNOPQRSTUVWXYZ'' ''abcdefghijklmnopqrstuvwxyz'') c of
                 None \<Rightarrow> c
               | Some l \<Rightarrow> l) s"

text \<open>
  \<open>VAULTS_MAP\<close>: a \<open>Map\<close> built from the six pairs in their order, so the second pair
  under the key of 0x08FC...24e7 replaces the first. Each threshold is \<open>BigInt\<close> of a
  number literal, that is, of the double nearest to the decimal written.
\<close>

definition VAULTS_MAP :: "string \<rightharpoonup> int" where
  "VAULTS_MAP =
     (((((Map.empty
       (toLowerCase ''0x7C9e73d4C71dae564d41F78d56439bB4ba87592f'' \<mapsto> int (toDouble 100000000000000000000000)))
       (toLowerCase ''0xbfF4a34A4644a113E8200D7F1D79b3555f723AfE'' \<mapsto> int (toDouble 30000000000000000000)))
       (toLowerCase ''0x08FC9Ba2cAc74742177e0afC3dC8Aed6961c24e7'' \<mapsto> int (toDouble 3000000000000000000)))
       (toLowerCase ''0x08FC9Ba2cAc74742177e0afC3dC8Aed6961c24e7'' \<mapsto> int (toDouble 100000000000000000000000)))
       (toLowerCase ''0xf1bE8ecC990cBcb90e166b71E368299f0116d421'' \<mapsto> int (toDouble 200000000000000000000000)))
       (toLowerCase ''0x3282d2a151ca00BfE7ed17Aa16E42880248CD3Cd'' \<mapsto> int (toDouble 100000000000000000000000))"

definition handleTransaction :: "workEvent list \<Rightarrow> finding list" where
  "handleTransaction = provideHandleTransaction VAULTS_MAP"

section \<open>Notions the properties are stated with\<close>

text \<open>
  Three consecutive rejections of a remote call, the first at call number \<open>t\<close>; and
  the state a provider operation leaves after them: one record in the error collector
  (for the third rejection), three calls made, three one-second waits.
\<close>

definition threeFailures :: "(nat \<Rightarrow> js_error + 'a) \<Rightarrow> nat \<Rightarrow> bool" where
  "threeFailures f t = (isl (f t) \<and> isl (f (t + 1)) \<and> isl (f (t + 2)))"

definition exhausted :: "js_error \<Rightarrow> string \<Rightarrow> world \<Rightarrow> world" where
  "exhausted err src w =
     w\<lparr>ErrorCache := ErrorCache w @ [createErrorAlert (err_toString err) src (err_inspect err)],
       calls := calls w + 3, sleeps := sleeps w + 3\<rparr>"

text \<open>An environment in which every remote call is rejected.\<close>

definition timeout :: js_error where
  "timeout = JsError ''Error: timeout'' ''Error: timeout at fetch''"

definition env_down :: remote where
  "env_down =
     \<lparr>provider_getCode = (\<lambda>t address. Inl timeout),
      provider_getStorageAt = (\<lambda>t address slot blockNumber. Inl timeout),
      provider_getTransactionCount = (\<lambda>t address. Inl timeout),
      contract_owner = (\<lambda>t address block. Inl timeout),
      contract_getOwner = (\<lambda>t address block. Inl timeout),
      fetch_text = (\<lambda>t url. Inl timeout),
      fetch_labels = (\<lambda>t address source. Inl timeout),
      fetch_explorer = (\<lambda>t url. Inl timeout)\<rparr>"

text \<open>
  An explorer attempt fails when the fetch is rejected (or its reply cannot be read) or
  when the reply carries one of the three soft-failure messages.
\<close>

definition failedAttempt :: "js_error + response \<Rightarrow> bool" where
  "failedAttempt r = (case r of Inl err \<Rightarrow> True | Inr result \<Rightarrow> softFailure result)"

definition threeFailedAttempts :: "remote \<Rightarrow> request \<Rightarrow> nat \<Rightarrow> bool" where
  "threeFailedAttempts env u t =
     (failedAttempt (fetch_explorer env t u) \<and> failedAttempt (fetch_explorer env (t + 1) u) \<and>
      failedAttempt (fetch_explorer env (t + 2) u))"

text \<open>An explorer whose every reply is the rate-limit message.\<close>

definition env_notok :: remote where
  "env_notok =
     env_down\<lparr>fetch_explorer :=
       (\<lambda>t url. Inr \<lparr>resp_message = ''NOTOK'', resp_result = []\<rparr>)\<rparr>"

text \<open>
  An explorer that answers every request with the same usable reply, and a configuration
  with entries for the chains 1 and 56.
\<close>

definition env_replies :: "entry list \<Rightarrow> remote" where
  "env_replies entries =
     env_down\<lparr>fetch_explorer :=
       (\<lambda>t url. Inr \<lparr>resp_message = ''OK'', resp_result = entries\<rparr>)\<rparr>"

definition cfg0 :: config where
  "cfg0 = \<lparr>toTxCountThreshold = 2000, fromTxCountThreshold = 9999,
           etherscanApis = (\<lambda>chainId. chainId \<in> set [1, 56])\<rparr>"

definition blank :: entry where
  "blank = \<lparr>tx_hash = '''', tx_from = '''', tx_to = '''', tx_value = '''',
            tx_blockNumber = '''', tx_SourceCode = ''''\<rparr>"




text \<open>
  The five caches of a state; and an operation run twice in a row: the two results and
  the number of remote calls both runs made together.
\<close>

definition caches ::
  "world \<Rightarrow> (string, bool) lru \<times> (string, string) lru \<times> (string, string) lru \<times>
     (string, nat) lru \<times> (string, string) lru" where
  "caches w = (eoaCache w, codeCache w, functionCache w, nonceCache w, ownerCache w)"


text \<open>
  Services that reject every call before call number \<open>n\<close> of the process and answer
  from then on; \<open>env_code code\<close> is a provider that answers \<open>getCode\<close> with \<open>code\<close>.
\<close>

definition env_recovers :: "nat \<Rightarrow> remote" where
  "env_recovers n =
     \<lparr>provider_getCode = (\<lambda>t address. if t < n then Inl timeout else Inr ''0x6080''),
      provider_getStorageAt = (\<lambda>t address slot blockNumber. if t < n then Inl timeout else Inr ''0x00''),
      provider_getTransactionCount = (\<lambda>t address. if t < n then Inl timeout else Inr 7),
      contract_owner = (\<lambda>t address block. if t < n then Inl timeout else Inr ''0xowner''),
      contract_getOwner = (\<lambda>t address block. if t < n then Inl timeout else Inr ''0xowner''),
      fetch_text = (\<lambda>t url. if t < n then Inl timeout else Inr ''transfer(address,uint256)''),
      fetch_labels = (\<lambda>t address source. if t < n then Inl timeout else Inr [''exchange'']),
      fetch_explorer = (\<lambda>t url. if t < n then Inl timeout
                                  else Inr \<lparr>resp_message = ''OK'', resp_result = []\<rparr>)\<rparr>"

definition env_code :: "string \<Rightarrow> remote" where
  "env_code code = env_down\<lparr>provider_getCode := (\<lambda>t address. Inr code)\<rparr>"

text \<open>
  Two histories of five transfers to \<open>0xme\<close> from five senders. In \<open>history_zero\<close> the
  third one moves the value \<open>"0"\<close>; \<open>history_clean\<close> differs in that value only.
\<close>

definition tx :: "string \<Rightarrow> string \<Rightarrow> string \<Rightarrow> string \<Rightarrow> entry" where
  "tx h f t v =
     \<lparr>tx_hash = h, tx_from = f, tx_to = t, tx_value = v, tx_blockNumber = ''1'',
      tx_SourceCode = ''''\<rparr>"

definition history_zero :: "entry list" where
  "history_zero =
     [tx ''0xh0'' ''0xa'' ''0xme'' ''5'', tx ''0xh1'' ''0xb'' ''0xme'' ''7'',
      tx ''0xh2'' ''0xc'' ''0xme'' ''0'', tx ''0xh3'' ''0xd'' ''0xme'' ''9'',
      tx ''0xh4'' ''0xe'' ''0xme'' ''11'']"

definition history_clean :: "entry list" where
  "history_clean =
     [tx ''0xh0'' ''0xa'' ''0xme'' ''5'', tx ''0xh1'' ''0xb'' ''0xme'' ''7'',
      tx ''0xh2'' ''0xc'' ''0xme'' ''8'', tx ''0xh3'' ''0xd'' ''0xme'' ''9'',
      tx ''0xh4'' ''0xe'' ''0xme'' ''11'']"

text \<open>
  For \<open>haveInteractedWithSameAddress\<close>: the histories the legs fetch, victim by victim
  (\<open>None\<close> where a leg ran out of attempts), and the counterparties a history shows for
  a victim: its \<open>to\<close> addresses other than the attacker and the victim.
\<close>

fun fetched :: "config \<Rightarrow> remote \<Rightarrow> nat \<Rightarrow> string list \<Rightarrow> world \<Rightarrow> entry list option list" where
  "fetched cfg env chainId [] w = []"
| "fetched cfg env chainId (victim # victims) w =
     (case explorerLoop env (getEtherscanAddressUrl cfg victim chainId 100) 1 w of
        (r, w1) \<Rightarrow> map_option resp_result r # fetched cfg env chainId victims w1)"

definition counterparties :: "string \<Rightarrow> string \<Rightarrow> entry list \<Rightarrow> string set" where
  "counterparties attacker victim entries =
     set (filter (\<lambda>to. to \<noteq> attacker \<and> to \<noteq> victim) (map tx_to entries))"

text \<open>
  What a frequency map says: the pairs (victim, address) it records, and its shape (no
  key twice, no victim twice under a key, no key without a victim).
\<close>

definition recorded :: "(string \<times> string list) list \<Rightarrow> (string \<times> string) set" where
  "recorded fm = {(v, a). \<exists>vs. map_of fm a = Some vs \<and> v \<in> set vs}"

definition wellShaped :: "(string \<times> string list) list \<Rightarrow> bool" where
  "wellShaped fm =
     (distinct (map fst fm) \<and> (\<forall>a vs. map_of fm a = Some vs \<longrightarrow> distinct vs \<and> vs \<noteq> []))"

text \<open>
  An explorer that answers the address request of each account with that account's
  history; four victims of \<open>0xatt\<close>, of whom the first two have sent to \<open>0xmixer\<close>
  (\<open>H_shared\<close>), or of whom no two have sent to the same address (\<open>H_apart\<close>).
\<close>

definition env_histories :: "(string \<Rightarrow> entry list) \<Rightarrow> remote" where
  "env_histories H =
     env_down\<lparr>fetch_explorer :=
       (\<lambda>t url. case url of
                   AddressUrl address chainId offset \<Rightarrow>
                     Inr \<lparr>resp_message = ''OK'', resp_result = H address\<rparr>
                 | AddressInternalTxsUrl address chainId offset \<Rightarrow> Inl timeout
                 | SourceCodeUrl address chainId \<Rightarrow> Inl timeout
                 | LogsUrl address blockNumber chainId \<Rightarrow> Inl timeout)\<rparr>"

definition fourVictims :: "string list" where
  "fourVictims = [''0xv1'', ''0xv2'', ''0xv3'', ''0xv4'']"

definition H_shared :: "string \<Rightarrow> entry list" where
  "H_shared address =
     (if address = ''0xv1'' then [tx ''0xa1'' ''0xv1'' ''0xatt'' ''5'', tx ''0xa2'' ''0xv1'' ''0xmixer'' ''6'']
      else if address = ''0xv2'' then [tx ''0xb1'' ''0xv2'' ''0xmixer'' ''7'', tx ''0xb2'' ''0xv2'' ''0xv2'' ''8'']
      else if address = ''0xv3'' then [tx ''0xc1'' ''0xv3'' ''0xshop'' ''9'']
      else [tx ''0xd1'' ''0xv4'' ''0xatt'' ''4''])"

definition H_apart :: "string \<Rightarrow> entry list" where
  "H_apart address =
     (if address = ''0xv1'' then [tx ''0xa1'' ''0xv1'' ''0xatt'' ''5'', tx ''0xa2'' ''0xv1'' ''0xmixer'' ''6'']
      else if address = ''0xv2'' then [tx ''0xb1'' ''0xv2'' ''0xbank'' ''7'', tx ''0xb2'' ''0xv2'' ''0xv2'' ''8'']
      else if address = ''0xv3'' then [tx ''0xc1'' ''0xv3'' ''0xshop'' ''9'']
      else [tx ''0xd1'' ''0xv4'' ''0xatt'' ''4''])"




text \<open>A provider whose \<open>getCode\<close> is rejected at the first call and answers \<open>"0x"\<close> after.\<close>

definition env_late0x :: remote where
  "env_late0x =
     env_down\<lparr>provider_getCode := (\<lambda>t address. if t = 0 then Inl timeout else Inr ''0x'')\<rparr>"

text \<open>
  \<open>retried operation w\<close>: the operation, run once more right after its run in \<open>w\<close>,
  makes at least one remote call.
\<close>

definition retried :: "(world \<Rightarrow> 'a \<times> world) \<Rightarrow> world \<Rightarrow> bool" where
  "retried operation w = (calls (snd (operation w)) < calls (snd (operation (snd (operation w)))))"

section \<open>Lemmas on the retry loops\<close>

lemma threeFailuresE:
  assumes "threeFailures f t"
  obtains e1 e2 e3 where "f t = Inl e1" "f (t + 1) = Inl e2" "f (t + 2) = Inl e3"
  using assms unfolding threeFailures_def by (auto simp: isl_def)

lemma getCode_loop_exhausted:
  assumes "threeFailures (\<lambda>t. provider_getCode env t a) (calls w)"
  shows "getCode_loop env a 0 w =
    (None, exhausted (projl (provider_getCode env (calls w + 2) a)) ''fetcher.getCode'' w)"
proof -
  from assms obtain e1 e2 e3 where
    "provider_getCode env (calls w) a = Inl e1"
    "provider_getCode env (calls w + 1) a = Inl e2"
    "provider_getCode env (calls w + 2) a = Inl e3"
    by (rule threeFailuresE)
  then show ?thesis
    by (simp add: getCode_loop.simps maxTries_def called_def slept_def logError_def
          ErrorCache_add_def exhausted_def)
qed

lemma getStorageSlot_loop_exhausted:
  assumes "threeFailures (\<lambda>t. provider_getStorageAt env t a slot b) (calls w)"
  shows "getStorageSlot_loop env a slot b 0 w =
    (None, exhausted (projl (provider_getStorageAt env (calls w + 2) a slot b))
             ''fetcher.getStorageSlot'' w)"
proof -
  from assms obtain e1 e2 e3 where
    "provider_getStorageAt env (calls w) a slot b = Inl e1"
    "provider_getStorageAt env (calls w + 1) a slot b = Inl e2"
    "provider_getStorageAt env (calls w + 2) a slot b = Inl e3"
    by (rule threeFailuresE)
  then show ?thesis
    by (simp add: getStorageSlot_loop.simps maxTries_def called_def slept_def logError_def
          ErrorCache_add_def exhausted_def)
qed

lemma getNonce_loop_exhausted:
  assumes "threeFailures (\<lambda>t. provider_getTransactionCount env t a) (calls w)"
  shows "getNonce_loop env a n 0 w =
    (n, exhausted (projl (provider_getTransactionCount env (calls w + 2) a)) ''fetcher.getNonce'' w)"
proof -
  from assms obtain e1 e2 e3 where
    "provider_getTransactionCount env (calls w) a = Inl e1"
    "provider_getTransactionCount env (calls w + 1) a = Inl e2"
    "provider_getTransactionCount env (calls w + 2) a = Inl e3"
    by (rule threeFailuresE)
  then show ?thesis
    by (simp add: getNonce_loop.simps maxTries_def called_def slept_def logError_def
          ErrorCache_add_def exhausted_def)
qed

lemma explorerLoop_exhausted:
  assumes "threeFailedAttempts env u (calls w)"
  shows "explorerLoop env (Inr u) 1 w = (None, w\<lparr>calls := calls w + 3\<rparr>)"
  using assms
  by (auto simp: threeFailedAttempts_def failedAttempt_def explorerLoop.simps [of env "Inr u"]
      maxRetries_def called_def split: sum.splits)


lemma explorerLoop_first:
  assumes "fetch_explorer env (calls w) u = Inr result" and "\<not> softFailure result"
  shows "explorerLoop env (Inr u) 1 w = (Some result, w\<lparr>calls := calls w + 1\<rparr>)"
  using assms by (simp add: explorerLoop.simps [of env "Inr u"] maxRetries_def called_def)



lemma getSignature_loop_exhausted:
  assumes "threeFailures (\<lambda>t. fetch_text env t url) (calls w)"
  shows "getSignature_loop env url 0 w =
    (Inl (projl (fetch_text env (calls w + 2) url)), w\<lparr>calls := calls w + 3, sleeps := sleeps w + 2\<rparr>)"
proof -
  from assms obtain e1 e2 e3 where
    "fetch_text env (calls w) url = Inl e1"
    "fetch_text env (calls w + 1) url = Inl e2"
    "fetch_text env (calls w + 2) url = Inl e3"
    by (rule threeFailuresE)
  then show ?thesis
    by (simp add: getSignature_loop.simps maxTries_def called_def slept_def)
qed





lemma env_down_simps:
  "provider_getCode env_down t a = Inl timeout"
  "provider_getStorageAt env_down t a s b = Inl timeout"
  "provider_getTransactionCount env_down t a = Inl timeout"
  "contract_owner env_down t a bl = Inl timeout"
  "contract_getOwner env_down t a bl = Inl timeout"
  "fetch_text env_down t u = Inl timeout"
  "fetch_labels env_down t a src = Inl timeout"
  "fetch_explorer env_down t r = Inl timeout"
  by (simp_all add: env_down_def)

lemma DataFetcher_new_simps:
  "\<not> lru_has (eoaCache DataFetcher_new) k"
  "\<not> lru_has (codeCache DataFetcher_new) k"
  "\<not> lru_has (functionCache DataFetcher_new) k"
  "\<not> lru_has (nonceCache DataFetcher_new) k"
  "\<not> lru_has (ownerCache DataFetcher_new) k"
  "calls DataFetcher_new = 0"
  "sleeps DataFetcher_new = 0"
  "ErrorCache DataFetcher_new = []"
  by (simp_all add: DataFetcher_new_def lru_has_def LRU_new_def)


lemma lru_has_set: "0 < lru_max c \<Longrightarrow> lru_has (lru_set c k v) k"
  by (simp add: lru_has_def lru_set_def take_Cons')

lemma lru_get_set:
  "0 < lru_max c \<Longrightarrow> fst (lru_get (lru_set c k v) k) = Some v"
  by (simp add: lru_get_def lru_set_def take_Cons')

lemma lru_max_set: "lru_max (lru_set c k v) = lru_max c"
  by (simp add: lru_set_def)





lemma isEoa_hit:
  assumes "fst (lru_get (eoaCache w) a) = Some v"
  shows "fst (isEoa env a w) = Some v" and "calls (snd (isEoa env a w)) = calls w"
  using assms
  by (auto simp: isEoa_def lru_has_def lru_get_def split: option.splits prod.splits)



lemma getOwner_hit:
  assumes "fst (lru_get (ownerCache w) (a @ '' - '' @ show_nat b)) = Some v"
  shows "fst (getOwner env a b w) = v" and "calls (snd (getOwner env a b w)) = calls w"
  using assms
  by (auto simp: getOwner_def Let_def lru_has_def lru_get_def split: option.splits prod.splits)

lemma DataFetcher_new_room:
  "0 < lru_max (eoaCache DataFetcher_new)"
  "0 < lru_max (codeCache DataFetcher_new)"
  "0 < lru_max (functionCache DataFetcher_new)"
  "0 < lru_max (nonceCache DataFetcher_new)"
  "0 < lru_max (ownerCache DataFetcher_new)"
  by (simp_all add: DataFetcher_new_def LRU_new_def)

lemma env_recovers_simps:
  "provider_getCode (env_recovers n) t a = (if t < n then Inl timeout else Inr ''0x6080'')"
  "provider_getStorageAt (env_recovers n) t a s b = (if t < n then Inl timeout else Inr ''0x00'')"
  "provider_getTransactionCount (env_recovers n) t a = (if t < n then Inl timeout else Inr 7)"
  "contract_owner (env_recovers n) t a bl = (if t < n then Inl timeout else Inr ''0xowner'')"
  "contract_getOwner (env_recovers n) t a bl = (if t < n then Inl timeout else Inr ''0xowner'')"
  "fetch_text (env_recovers n) t u =
     (if t < n then Inl timeout else Inr ''transfer(address,uint256)'')"
  "fetch_labels (env_recovers n) t a src = (if t < n then Inl timeout else Inr [''exchange''])"
  by (simp_all add: env_recovers_def)

lemma getCode_loop_caches: "caches (snd (getCode_loop env a tries w)) = caches w"
proof (induction env a tries w rule: getCode_loop.induct)
  case (1 env address tries w)
  then show ?case
    by (subst getCode_loop.simps)
      (auto simp: caches_def called_def slept_def logError_def split: sum.splits)
qed

lemma getCode_eoaCache: "eoaCache (snd (getCode env a w)) = eoaCache w"
  using getCode_loop_caches [of env a 0 w]
  by (auto simp: getCode_def caches_def split_beta split: option.splits)

lemma foldl_flag: "foldl (\<lambda>acc i. if P i then True else acc) b xs = (b \<or> (\<exists>i\<in>set xs. P i))"
  by (induction xs arbitrary: b) auto

lemma validEntriesScan_iff:
  "validEntriesScan hash entries \<longleftrightarrow>
     (\<exists>i<length entries. tx_hash (entries ! i) = hash \<and> 3 \<le> i \<and>
        \<not> hasZeroValue (slice (i - 3) i entries) \<and> \<not> hasDuplicateFrom (slice (i - 3) i entries))"
proof -
  have "validEntriesScan hash entries =
    foldl (\<lambda>acc i. if tx_hash (entries ! i) = hash \<and> 3 \<le> i \<and>
        \<not> hasZeroValue (slice (i - 3) i entries) \<and> \<not> hasDuplicateFrom (slice (i - 3) i entries)
      then True else acc) False [0..<length entries]"
    unfolding validEntriesScan_def Let_def
    by (rule arg_cong [where f = "\<lambda>f. foldl f False [0..<length entries]"]) (auto simp: fun_eq_iff)
  then show ?thesis
    by (auto simp: foldl_flag)
qed

lemma hasZeroValue_window:
  assumes "3 \<le> i" "i < length entries" "i - 3 \<le> k" "k < i" "tx_value (entries ! k) = ''0''"
  shows "hasZeroValue (slice (i - 3) i entries)"
proof -
  have "entries ! k = slice (i - 3) i entries ! (k - (i - 3))"
    using assms by (simp add: slice_def)
  moreover have "k - (i - 3) < length (slice (i - 3) i entries)"
    using assms by (simp add: slice_def)
  ultimately have "entries ! k \<in> set (slice (i - 3) i entries)"
    by (metis nth_mem)
  then show ?thesis
    using assms(5) by (auto simp: hasZeroValue_def list_ex_iff)
qed

lemma env_replies_simp:
  "fetch_explorer (env_replies entries) t u = Inr \<lparr>resp_message = ''OK'', resp_result = entries\<rparr>"
  by (simp add: env_replies_def)

lemma not_softFailure_OK: "\<not> softFailure \<lparr>resp_message = ''OK'', resp_result = entries\<rparr>"
  by (simp add: softFailure_def startsWith_def)

lemma cfg0_simps: "etherscanApis cfg0 1" "toTxCountThreshold cfg0 = 2000"
  "fromTxCountThreshold cfg0 = 9999"
  by (simp_all add: cfg0_def)

lemma bitlen_le: "n < 2 ^ k \<Longrightarrow> bitlen n \<le> k"
proof (induction k arbitrary: n)
  case 0
  then show ?case by (simp add: bitlen.simps)
next
  case (Suc k)
  show ?case
  proof (cases "n = 0")
    case True
    then show ?thesis by (simp add: bitlen.simps)
  next
    case False
    from Suc.prems have "n div 2 < 2 ^ k" by simp
    from Suc.IH [OF this] False show ?thesis
      by (subst bitlen.simps) simp
  qed
qed

lemma toDouble_exact: "n < 2 ^ 53 \<Longrightarrow> toDouble n = n"
  using bitlen_le [of n 53] by (simp add: toDouble_def)

lemma VAULTS_MAP_eth:
  "VAULTS_MAP ''0xbff4a34a4644a113e8200d7f1d79b3555f723afe'' = Some 30000000000000000000"
  by (simp add: VAULTS_MAP_def toLowerCase_def toDouble_def bitlen.simps)

lemma handleTransaction_single:
  "provideHandleTransaction vaultsMap [ev] =
     (case vaultsMap (ev_address ev) of
        None \<Rightarrow> []
      | Some vaultThreshold \<Rightarrow>
          if vaultThreshold \<noteq> 0 \<and> vaultThreshold < int (toDouble (ev_loan ev))
          then [createFinding (toDouble (ev_id ev)) (int (toDouble (ev_loan ev))) (ev_address ev)]
          else [])"
  by (simp add: provideHandleTransaction_def parseInt_BigNumber_def split: option.splits)

lemma handleTransaction_exact:
  assumes "ev_loan ev < 2 ^ 53" "ev_id ev < 2 ^ 53"
  shows "provideHandleTransaction vaultsMap [ev] =
     (case vaultsMap (ev_address ev) of
        None \<Rightarrow> []
      | Some vaultThreshold \<Rightarrow>
          if vaultThreshold \<noteq> 0 \<and> vaultThreshold < int (ev_loan ev)
          then [createFinding (ev_id ev) (int (ev_loan ev)) (ev_address ev)]
          else [])"
proof -
  have "toDouble (ev_loan ev) = ev_loan ev" "toDouble (ev_id ev) = ev_id ev"
    by (rule toDouble_exact [OF assms(1)], rule toDouble_exact [OF assms(2)])
  then show ?thesis
    by (simp add: handleTransaction_single split: option.splits)
qed

lemma handleTransaction_zero_threshold:
  "provideHandleTransaction (Map.empty(''0xvault'' \<mapsto> 0))
     [\<lparr>ev_address = ''0xvault'', ev_id = 7, ev_loan = 5\<rparr>] = []"
  by (simp add: handleTransaction_single)

lemma addVictim_map_of:
  "map_of (addVictim fm v a) =
     (map_of fm)(a \<mapsto> (case map_of fm a of
                          None \<Rightarrow> [v]
                        | Some vs \<Rightarrow> if v \<in> set vs then vs else vs @ [v]))"
proof (cases "map_of fm a")
  case None
  then show ?thesis
    by (simp add: addVictim_def Let_def update_conv')
next
  case (Some vs)
  then show ?thesis
    by (auto simp: addVictim_def Let_def update_conv' fun_eq_iff)
qed

lemma addVictim_keys:
  "distinct (map fst fm) \<Longrightarrow> distinct (map fst (addVictim fm v a))"
  by (cases "map_of fm a") (simp_all add: addVictim_def Let_def update_conv' distinct_update)

lemma addVictim_shape:
  assumes "wellShaped fm"
  shows "wellShaped (addVictim fm v a)" and "recorded (addVictim fm v a) = insert (v, a) (recorded fm)"
proof -
  have k: "distinct (map fst (addVictim fm v a))"
    using assms by (simp add: wellShaped_def addVictim_keys)
  have e: "distinct vs \<and> vs \<noteq> []" if "map_of (addVictim fm v a) b = Some vs" for b vs
  proof (cases "b = a")
    case False
    with that have "map_of fm b = Some vs" by (simp add: addVictim_map_of)
    with assms show ?thesis by (simp add: wellShaped_def)
  next
    case True
    show ?thesis
    proof (cases "map_of fm a")
      case None
      with that True show ?thesis by (auto simp: addVictim_map_of)
    next
      case (Some vs0)
      with assms have "distinct vs0" "vs0 \<noteq> []" by (simp_all add: wellShaped_def)
      with that True Some show ?thesis
        by (cases "v \<in> set vs0") (auto simp: addVictim_map_of)
    qed
  qed
  from k e show "wellShaped (addVictim fm v a)"
    unfolding wellShaped_def by blast
  show "recorded (addVictim fm v a) = insert (v, a) (recorded fm)"
  proof (cases "map_of fm a")
    case None
    then show ?thesis
      by (auto simp: recorded_def addVictim_map_of split: if_splits)
  next
    case (Some vs0)
    then show ?thesis
      by (cases "v \<in> set vs0") (auto simp: recorded_def addVictim_map_of split: if_splits)
  qed
qed

lemma addVictims_shape:
  assumes "wellShaped fm"
  shows "wellShaped (foldl (\<lambda>fm a. addVictim fm v a) fm tos) \<and>
    recorded (foldl (\<lambda>fm a. addVictim fm v a) fm tos) = recorded fm \<union> {v} \<times> set tos"
  using assms
proof (induction tos arbitrary: fm)
  case Nil
  then show ?case by simp
next
  case (Cons a tos)
  from addVictim_shape [OF Cons.prems, of v a] Cons.IH [of "addVictim fm v a"]
  show ?case by auto
qed

lemma frequencies_fold_shape:
  assumes "wellShaped fm"
  shows "wellShaped (foldl (\<lambda>fm (victim, toAddresses).
        foldl (\<lambda>fm toAddress. addVictim fm victim toAddress) fm toAddresses) fm vi) \<and>
    recorded (foldl (\<lambda>fm (victim, toAddresses).
        foldl (\<lambda>fm toAddress. addVictim fm victim toAddress) fm toAddresses) fm vi) =
      recorded fm \<union> {(v, a). \<exists>tos. (v, tos) \<in> set vi \<and> a \<in> set tos}"
  using assms
proof (induction vi arbitrary: fm)
  case Nil
  then show ?case by simp
next
  case (Cons p vi)
  obtain v tos where p: "p = (v, tos)" by (cases p)
  from addVictims_shape [OF Cons.prems, of v tos]
  have s: "wellShaped (foldl (\<lambda>fm a. addVictim fm v a) fm tos)"
    and r: "recorded (foldl (\<lambda>fm a. addVictim fm v a) fm tos) = recorded fm \<union> {v} \<times> set tos"
    by simp_all
  from Cons.IH [OF s] show ?case
    by (auto simp: p r)
qed

lemma frequencies_shape:
  "wellShaped (frequencies vi)"
  "recorded (frequencies vi) = {(v, a). \<exists>tos. (v, tos) \<in> set vi \<and> a \<in> set tos}"
proof -
  have "wellShaped []" by (simp add: wellShaped_def)
  from frequencies_fold_shape [OF this, of vi]
  show "wellShaped (frequencies vi)"
    "recorded (frequencies vi) = {(v, a). \<exists>tos. (v, tos) \<in> set vi \<and> a \<in> set tos}"
    by (simp_all add: frequencies_def recorded_def)
qed

lemma majority_iff:
  assumes "wellShaped fm"
  shows "list_ex (\<lambda>(address, vs). length vs \<ge> n) fm \<longleftrightarrow>
    (\<exists>a. (\<exists>v. (v, a) \<in> recorded fm) \<and> n \<le> card {v. (v, a) \<in> recorded fm})"
proof
  assume "list_ex (\<lambda>(address, vs). length vs \<ge> n) fm"
  then obtain a vs where m: "(a, vs) \<in> set fm" and n: "n \<le> length vs"
    by (auto simp: list_ex_iff)
  from m assms have s: "map_of fm a = Some vs"
    by (auto simp: wellShaped_def)
  with assms have d: "distinct vs" and ne: "vs \<noteq> []"
    by (auto simp: wellShaped_def)
  from s have eq: "{v. (v, a) \<in> recorded fm} = set vs"
    by (auto simp: recorded_def)
  from ne obtain v where "v \<in> set vs" by (cases vs) auto
  with eq have "(v, a) \<in> recorded fm" by auto
  moreover have "n \<le> card {v. (v, a) \<in> recorded fm}"
    using n d by (simp add: eq distinct_card)
  ultimately show "\<exists>a. (\<exists>v. (v, a) \<in> recorded fm) \<and> n \<le> card {v. (v, a) \<in> recorded fm}"
    by blast
next
  assume "\<exists>a. (\<exists>v. (v, a) \<in> recorded fm) \<and> n \<le> card {v. (v, a) \<in> recorded fm}"
  then obtain a v where r: "(v, a) \<in> recorded fm" and n: "n \<le> card {v. (v, a) \<in> recorded fm}"
    by blast
  from r obtain vs where s: "map_of fm a = Some vs"
    by (auto simp: recorded_def)
  with assms have d: "distinct vs"
    by (auto simp: wellShaped_def)
  from s have eq: "{v. (v, a) \<in> recorded fm} = set vs"
    by (auto simp: recorded_def)
  from n d have "n \<le> length vs"
    by (simp add: eq distinct_card)
  moreover from s have "(a, vs) \<in> set fm"
    by (rule map_of_SomeD)
  ultimately show "list_ex (\<lambda>(address, vs). length vs \<ge> n) fm"
    by (auto simp: list_ex_iff)
qed

lemma legs_fetched:
  assumes "fetched cfg env chainId victims w = map (\<lambda>v. Some (H v)) victims"
  shows "\<exists>w1. foldl (\<lambda>acc victim. victimLeg cfg env attacker chainId victim acc) (flag, vi, w) victims =
    (flag,
     foldl (\<lambda>vi v. AList.update v
                     (Array_from_Set (filter (\<lambda>to. to \<notin> set [attacker, v]) (map tx_to (H v)))) vi)
       vi victims,
     w1)"
  using assms
proof (induction victims arbitrary: flag vi w)
  case Nil
  then show ?case by simp
next
  case (Cons v vs)
  obtain r w1 where l: "explorerLoop env (getEtherscanAddressUrl cfg v chainId 100) 1 w = (r, w1)"
    by (cases "explorerLoop env (getEtherscanAddressUrl cfg v chainId 100) 1 w")
  from Cons.prems l have r: "map_option resp_result r = Some (H v)"
    and rest: "fetched cfg env chainId vs w1 = map (\<lambda>v. Some (H v)) vs"
    by (simp_all del: One_nat_def)
  from r obtain result where res: "r = Some result" "resp_result result = H v"
    by (cases r) auto
  have leg: "victimLeg cfg env attacker chainId v (flag, vi, w) =
    (flag, AList.update v
             (Array_from_Set (filter (\<lambda>to. to \<notin> set [attacker, v]) (map tx_to (H v)))) vi, w1)"
    by (simp add: victimLeg_def l res del: One_nat_def)
  from Cons.IH [OF rest] show ?case
    by (simp add: leg)
qed

lemma updates_map_of:
  "map_of (foldl (\<lambda>vi v. AList.update v (f v) vi) vi0 vs) =
     (\<lambda>k. if k \<in> set vs then Some (f k) else map_of vi0 k)"
  by (induction vs arbitrary: vi0) (auto simp: update_conv' fun_eq_iff)

lemma updates_distinct:
  "distinct (map fst vi0) \<Longrightarrow> distinct (map fst (foldl (\<lambda>vi v. AList.update v (f v) vi) vi0 vs))"
  by (induction vs arbitrary: vi0) (simp_all add: distinct_update)

lemma updates_set:
  "set (foldl (\<lambda>vi v. AList.update v (f v) vi) [] vs) = {(v, tos). v \<in> set vs \<and> tos = f v}"
proof -
  let ?vi = "foldl (\<lambda>vi v. AList.update v (f v) vi) [] vs"
  have d: "distinct (map fst ?vi)" by (simp add: updates_distinct)
  have "(v, tos) \<in> set ?vi \<longleftrightarrow> v \<in> set vs \<and> tos = f v" for v tos
    using map_of_eq_Some_iff [OF d, of v tos] by (auto simp: updates_map_of split: if_splits)
  then show ?thesis by auto
qed

lemma set_Array_from_Set: "set (Array_from_Set xs) = set xs"
  by (simp add: Array_from_Set_def)

lemma env_histories_simp:
  "fetch_explorer (env_histories H) t (AddressUrl a c off) =
     Inr \<lparr>resp_message = ''OK'', resp_result = H a\<rparr>"
  by (simp add: env_histories_def)

lemma explorerLoop_histories:
  "explorerLoop (env_histories H) (getEtherscanAddressUrl cfg0 a 1 off) 1 w =
     (Some \<lparr>resp_message = ''OK'', resp_result = H a\<rparr>, w\<lparr>calls := calls w + 1\<rparr>)"
  by (simp add: getEtherscanAddressUrl_def cfg0_simps explorerLoop_first env_histories_simp
      not_softFailure_OK del: One_nat_def)

lemma fetched_histories:
  "fetched cfg0 (env_histories H) 1 victims w = map (\<lambda>v. Some (H v)) victims"
  by (induction victims arbitrary: w) (simp_all add: explorerLoop_histories del: One_nat_def)

lemma apart_evaluated:
  "fst (haveInteractedWithSameAddress cfg0 (env_histories H_apart) ''0xatt'' fourVictims 1
         DataFetcher_new) = False"
  by (simp add: haveInteractedWithSameAddress_def fourVictims_def victimLeg_def
      explorerLoop_histories H_apart_def tx_def Array_from_Set_def frequencies_def addVictim_def
      del: One_nat_def)












lemma getSignature_loop_caches: "caches (snd (getSignature_loop env url tries w)) = caches w"
proof (induction env url tries w rule: getSignature_loop.induct)
  case (1 env url tries w)
  then show ?case
    by (subst getSignature_loop.simps)
      (auto simp: caches_def called_def slept_def split: sum.splits)
qed

lemma getCode_negative_caches:
  assumes "\<not> lru_has (codeCache w) key"
    and "fst (getCode env key w) = None \<or> fst (getCode env key w) = Some '''' \<or>
         fst (getCode env key w) = Some ''0x''"
  shows "caches (snd (getCode env key w)) = caches w"
  using assms getCode_loop_caches [of env key 0 w]
  by (auto simp: getCode_def split_beta split: option.splits if_splits)

lemma getSignature_negative_caches:
  assumes "\<not> lru_has (functionCache w) key"
    and "isl (fst (getSignature env key w)) \<or> fst (getSignature env key w) = Inr None"
  shows "caches (snd (getSignature env key w)) = caches w"
  using assms getSignature_loop_caches [of env "signatureDbUrl @ take 8 (drop 2 key)" 0 w]
  by (auto simp: getSignature_def split_beta split: option.splits if_splits sum.splits)

lemma isEoa_undefined_caches:
  assumes "\<not> lru_has (eoaCache w) key" "\<not> lru_has (codeCache w) key"
    and "fst (isEoa env key w) = None"
  shows "caches (snd (isEoa env key w)) = caches w"
proof -
  from assms(1,3) have g: "fst (getCode env key w) = None \<or> fst (getCode env key w) = Some ''''"
    and s: "snd (isEoa env key w) = snd (getCode env key w)"
    by (auto simp: isEoa_def split_beta split: option.splits if_splits)
  from getCode_negative_caches [OF assms(2)] g s show ?thesis by auto
qed

lemma isEoa_0x_cached:
  assumes "\<not> lru_has (eoaCache w) key" "fst (getCode env key w) = Some ''0x''"
  shows "fst (isEoa env key w) = Some True"
    and "eoaCache (snd (isEoa env key w)) = lru_set (eoaCache w) key True"
  using assms getCode_eoaCache [of env key w]
  by (auto simp: isEoa_def split_beta split: option.splits if_splits)

lemma getNonce_loop_stores:
  "(fst (getNonce_loop env a nonce tries w) = nonce \<and>
      caches (snd (getNonce_loop env a nonce tries w)) = caches w) \<or>
   (\<exists>i. provider_getTransactionCount env (calls w + i) a =
            Inr (fst (getNonce_loop env a nonce tries w)) \<and>
        nonceCache (snd (getNonce_loop env a nonce tries w)) =
          lru_set (nonceCache w) a (fst (getNonce_loop env a nonce tries w)))"
proof (induction env a nonce tries w rule: getNonce_loop.induct)
  case (1 env address nonce tries w)
  show ?case
  proof (cases "tries < maxTries")
    case False
    then show ?thesis by (subst (1 2 3 4 5) getNonce_loop.simps) simp
  next
    case True
    show ?thesis
    proof (cases "provider_getTransactionCount env (calls w) address")
      case (Inr n)
      have "getNonce_loop env address nonce tries w =
          (n, (called w)\<lparr>nonceCache := lru_set (nonceCache w) address n\<rparr>)"
        using True Inr by (subst getNonce_loop.simps) simp
      with Inr show ?thesis
        by (intro disjI2 exI [of _ 0]) simp
    next
      case (Inl err)
      define w' where "w' = slept (if tries + 1 = maxTries
                         then logError err ''fetcher.getNonce'' (called w) else called w)"
      have step: "getNonce_loop env address nonce tries w =
          getNonce_loop env address nonce (tries + 1) w'"
        using True Inl by (subst getNonce_loop.simps) (simp add: w'_def)
      have w': "calls w' = calls w + 1" "nonceCache w' = nonceCache w" "caches w' = caches w"
        by (simp_all add: w'_def called_def slept_def logError_def caches_def)
      from "1.IH" [OF True Inl] have
        "(fst (getNonce_loop env address nonce (tries + 1) w') = nonce \<and>
            caches (snd (getNonce_loop env address nonce (tries + 1) w')) = caches w') \<or>
         (\<exists>i. provider_getTransactionCount env (calls w' + i) address =
                  Inr (fst (getNonce_loop env address nonce (tries + 1) w')) \<and>
              nonceCache (snd (getNonce_loop env address nonce (tries + 1) w')) =
                lru_set (nonceCache w') address (fst (getNonce_loop env address nonce (tries + 1) w')))"
        by (simp add: w'_def)
      then show ?thesis
      proof
        assume "fst (getNonce_loop env address nonce (tries + 1) w') = nonce \<and>
            caches (snd (getNonce_loop env address nonce (tries + 1) w')) = caches w'"
        then show ?thesis by (simp add: step w')
      next
        assume "\<exists>i. provider_getTransactionCount env (calls w' + i) address =
                  Inr (fst (getNonce_loop env address nonce (tries + 1) w')) \<and>
              nonceCache (snd (getNonce_loop env address nonce (tries + 1) w')) =
                lru_set (nonceCache w') address (fst (getNonce_loop env address nonce (tries + 1) w'))"
        then obtain i where
          "provider_getTransactionCount env (calls w + (i + 1)) address =
                  Inr (fst (getNonce_loop env address nonce (tries + 1) w'))"
          "nonceCache (snd (getNonce_loop env address nonce (tries + 1) w')) =
                lru_set (nonceCache w) address (fst (getNonce_loop env address nonce (tries + 1) w'))"
          by (auto simp: w' add.commute add.left_commute)
        then show ?thesis
          unfolding step by (intro disjI2 exI [of _ "i + 1"]) simp
      qed
    qed
  qed
qed




lemma getCode_loop_mono: "calls w \<le> calls (snd (getCode_loop env a tries w))"
proof (induction env a tries w rule: getCode_loop.induct)
  case (1 env address tries w)
  show ?case
  proof (cases "tries < maxTries")
    case False
    then show ?thesis by (subst getCode_loop.simps) simp
  next
    case True
    show ?thesis
    proof (cases "provider_getCode env (calls w) address")
      case (Inr code)
      with True show ?thesis
        by (subst getCode_loop.simps) (simp add: called_def)
    next
      case (Inl err)
      from "1.IH" [OF True Inl]
      have "calls w \<le> calls (snd (getCode_loop env address (tries + 1)
                 (slept (if tries + 1 = maxTries
                         then logError err ''fetcher.getCode'' (called w) else called w))))"
        by (auto simp: called_def slept_def logError_def split: if_splits)
      with True Inl show ?thesis
        by (subst getCode_loop.simps) simp
    qed
  qed
qed

lemma getCode_loop_calls:
  "tries < maxTries \<Longrightarrow> calls w < calls (snd (getCode_loop env a tries w))"
proof -
  assume t: "tries < maxTries"
  show ?thesis
  proof (cases "provider_getCode env (calls w) a")
    case (Inr code)
    with t show ?thesis
      by (subst getCode_loop.simps) (simp add: called_def)
  next
    case (Inl err)
    have "calls w < calls (snd (getCode_loop env a (tries + 1)
                 (slept (if tries + 1 = maxTries
                         then logError err ''fetcher.getCode'' (called w) else called w))))"
      using getCode_loop_mono [of "slept (if tries + 1 = maxTries
                         then logError err ''fetcher.getCode'' (called w) else called w)"
          env a "tries + 1"]
      by (auto simp: called_def slept_def logError_def split: if_splits)
    with t Inl show ?thesis
      by (subst getCode_loop.simps) simp
  qed
qed

lemma getCode_calls:
  assumes "\<not> lru_has (codeCache w) key"
  shows "calls w < calls (snd (getCode env key w))"
proof -
  have "calls w < calls (snd (getCode_loop env key 0 w))"
    by (rule getCode_loop_calls) (simp add: maxTries_def)
  with assms show ?thesis
    by (auto simp: getCode_def split: prod.splits option.splits)
qed

lemma isEoa_calls:
  assumes "\<not> lru_has (eoaCache w) key" "\<not> lru_has (codeCache w) key"
  shows "calls w < calls (snd (isEoa env key w))"
  using getCode_calls [OF assms(2), of env] assms(1)
  by (auto simp: isEoa_def split: prod.splits option.splits)

lemma getNonce_loop_mono: "calls w \<le> calls (snd (getNonce_loop env a n tries w))"
proof (induction env a n tries w rule: getNonce_loop.induct)
  case (1 env address nonce tries w)
  show ?case
  proof (cases "tries < maxTries")
    case False
    then show ?thesis by (subst getNonce_loop.simps) simp
  next
    case True
    show ?thesis
    proof (cases "provider_getTransactionCount env (calls w) address")
      case (Inr code)
      with True show ?thesis
        by (subst getNonce_loop.simps) (simp add: called_def)
    next
      case (Inl err)
      from "1.IH" [OF True Inl]
      have "calls w \<le> calls (snd (getNonce_loop env address nonce (tries + 1)
                 (slept (if tries + 1 = maxTries
                         then logError err ''fetcher.getNonce'' (called w) else called w))))"
        by (auto simp: called_def slept_def logError_def split: if_splits)
      with True Inl show ?thesis
        by (subst getNonce_loop.simps) simp
    qed
  qed
qed

lemma getNonce_calls:
  assumes "\<not> lru_has (nonceCache w) key"
  shows "calls w < calls (snd (getNonce env key w))"
proof -
  have "calls w < calls (snd (getNonce_loop env key 100000 0 w))"
  proof (cases "provider_getTransactionCount env (calls w) key")
    case (Inr n)
    then show ?thesis
      by (subst getNonce_loop.simps) (simp add: called_def maxTries_def)
  next
    case (Inl err)
    have "calls w < calls (snd (getNonce_loop env key 100000 (0 + 1)
                 (slept (if 0 + 1 = maxTries
                         then logError err ''fetcher.getNonce'' (called w) else called w))))"
      using getNonce_loop_mono [of "slept (if 0 + 1 = maxTries
                         then logError err ''fetcher.getNonce'' (called w) else called w)"
          env key 100000 "0 + 1"]
      by (auto simp: called_def slept_def logError_def split: if_splits)
    with Inl show ?thesis
      by (subst getNonce_loop.simps) (simp add: maxTries_def)
  qed
  with assms show ?thesis by (simp add: getNonce_def)
qed

lemma getSignature_loop_mono: "calls w \<le> calls (snd (getSignature_loop env url tries w))"
proof (induction env url tries w rule: getSignature_loop.induct)
  case (1 env url tries w)
  show ?case
  proof (cases "tries < maxTries")
    case False
    then show ?thesis by (subst getSignature_loop.simps) simp
  next
    case True
    show ?thesis
    proof (cases "fetch_text env (calls w) url")
      case (Inr response)
      with True show ?thesis
        by (subst getSignature_loop.simps) (simp add: called_def)
    next
      case (Inl err)
      show ?thesis
      proof (cases "tries + 1 = maxTries")
        case True
        with \<open>tries < maxTries\<close> Inl show ?thesis
          by (subst getSignature_loop.simps) (simp add: called_def)
      next
        case False
        from "1.IH" [OF \<open>tries < maxTries\<close> Inl False]
        have "calls w \<le> calls (snd (getSignature_loop env url (tries + 1) (slept (called w))))"
          by (simp add: called_def slept_def)
        with \<open>tries < maxTries\<close> Inl False show ?thesis
          by (subst getSignature_loop.simps) simp
      qed
    qed
  qed
qed

lemma getSignature_calls:
  assumes "\<not> lru_has (functionCache w) key"
  shows "calls w < calls (snd (getSignature env key w))"
proof -
  let ?url = "signatureDbUrl @ take 8 (drop 2 key)"
  have "calls w < calls (snd (getSignature_loop env ?url 0 w))"
  proof (cases "fetch_text env (calls w) ?url")
    case (Inr response)
    then show ?thesis
      by (subst getSignature_loop.simps) (simp add: called_def maxTries_def)
  next
    case (Inl err)
    have "calls w < calls (snd (getSignature_loop env ?url (0 + 1) (slept (called w))))"
      using getSignature_loop_mono [of "slept (called w)" env ?url "0 + 1"]
      by (simp add: called_def slept_def)
    with Inl show ?thesis
      by (subst getSignature_loop.simps) (simp add: maxTries_def)
  qed
  with assms show ?thesis
    by (auto simp: getSignature_def split: prod.splits sum.splits option.splits)
qed

lemma caches_has:
  assumes "caches w' = caches w"
  shows "lru_has (eoaCache w') k = lru_has (eoaCache w) k"
    and "lru_has (codeCache w') k2 = lru_has (codeCache w) k2"
    and "lru_has (functionCache w') k3 = lru_has (functionCache w) k3"
    and "lru_has (nonceCache w') k4 = lru_has (nonceCache w) k4"
    and "lru_has (ownerCache w') k5 = lru_has (ownerCache w) k5"
  using assms by (simp_all add: caches_def)

lemma retried_getCode:
  assumes "\<not> lru_has (codeCache w) key" "caches (snd (getCode env key w)) = caches w"
  shows "retried (getCode env key) w"
  unfolding retried_def using assms caches_has(2) [OF assms(2), of key]
  by (intro getCode_calls) simp

lemma retried_isEoa:
  assumes "\<not> lru_has (eoaCache w) key" "\<not> lru_has (codeCache w) key"
    "caches (snd (isEoa env key w)) = caches w"
  shows "retried (isEoa env key) w"
  unfolding retried_def
  using assms caches_has(1) [OF assms(3), of key] caches_has(2) [OF assms(3), of key]
  by (intro isEoa_calls) simp_all

lemma retried_getNonce:
  assumes "\<not> lru_has (nonceCache w) key" "caches (snd (getNonce env key w)) = caches w"
  shows "retried (getNonce env key) w"
  unfolding retried_def using assms caches_has(4) [OF assms(2), of key]
  by (intro getNonce_calls) simp

lemma retried_getSignature:
  assumes "\<not> lru_has (functionCache w) key" "caches (snd (getSignature env key w)) = caches w"
  shows "retried (getSignature env key) w"
  unfolding retried_def using assms caches_has(3) [OF assms(2), of key]
  by (intro getSignature_calls) simp

section \<open>C1: what a failed lookup leaves in the caches\<close>

text \<open>
  C1 as stated fails for \<open>ownerCache\<close>. When \<open>owner()\<close> and \<open>getOwner()\<close> are both
  rejected, \<open>getOwner\<close> stores the empty string under the key; the next query for the
  key returns that empty string from the cache and makes no remote call, although the
  contract would answer by then.
\<close>

theorem C1_counterexample:
  "fst (getOwner (env_recovers 2) ''0xabc'' 5 DataFetcher_new) = '''' \<and>
   map_of (lru_items (ownerCache (snd (getOwner (env_recovers 2) ''0xabc'' 5 DataFetcher_new))))
     ''0xabc - 5'' = Some '''' \<and>
   contract_owner (env_recovers 2)
     (calls (snd (getOwner (env_recovers 2) ''0xabc'' 5 DataFetcher_new))) ''0xabc'' 5 =
     Inr ''0xowner'' \<and>
   fst (getOwner (env_recovers 2) ''0xabc'' 5
         (snd (getOwner (env_recovers 2) ''0xabc'' 5 DataFetcher_new))) = '''' \<and>
   calls (snd (getOwner (env_recovers 2) ''0xabc'' 5
         (snd (getOwner (env_recovers 2) ''0xabc'' 5 DataFetcher_new)))) =
   calls (snd (getOwner (env_recovers 2) ''0xabc'' 5 DataFetcher_new))"
proof -
  have first: "getOwner (env_recovers 2) ''0xabc'' 5 DataFetcher_new =
    ('''', DataFetcher_new\<lparr>calls := 2,
             ownerCache := lru_set (ownerCache DataFetcher_new) ''0xabc - 5'' ''''\<rparr>)"
    by (simp add: getOwner_def Let_def show_nat.simps DataFetcher_new_simps env_recovers_simps
        called_def)
  have hit: "fst (lru_get (ownerCache (DataFetcher_new\<lparr>calls := 2,
             ownerCache := lru_set (ownerCache DataFetcher_new) ''0xabc - 5'' ''''\<rparr>))
             (''0xabc'' @ '' - '' @ show_nat 5)) = Some ''''"
    by (simp add: lru_get_set DataFetcher_new_room show_nat.simps)
  show ?thesis
    using getOwner_hit [OF hit, of "env_recovers 2"]
    by (simp add: first env_recovers_simps lru_set_def DataFetcher_new_room take_Cons')
qed

text \<open>
  C1, amended. What counts as a failed or negative lookup differs by operation. At a key
  that is not cached:
  a \<open>getCode\<close> call that ends in \<open>undefined\<close> (three rejections), in an empty code or in
  \<open>"0x"\<close>, whichever attempt answered, leaves all five caches as they were;
  an \<open>isEoa\<close> call that returns \<open>undefined\<close> (no code fetched, or an empty one) leaves
  them as they were, while a fetched \<open>"0x"\<close>, for \<open>isEoa\<close> the answer "externally
  owned", is stored as \<open>true\<close> in \<open>eoaCache\<close>;
  a \<open>getNonce\<close> call either leaves the caches as they were and returns the sentinel
  100000, or stores the count that the provider answered at one of its attempts;
  a \<open>getSignature\<close> call that throws (three rejections) or returns \<open>undefined\<close> (an
  empty text or one that starts with \<open>404\<close>, whichever attempt answered) leaves the
  caches as they were.
  In each of these cases with the caches unchanged, the same query made next calls the
  service again (\<open>retried\<close>).
  \<open>getOwner\<close> stores its result whatever it is: after two rejections, the empty string.
\<close>

theorem C1_failed_lookups_not_cached:
  "(\<not> lru_has (codeCache w) key \<and> threeFailures (\<lambda>t. provider_getCode env t key) (calls w) \<longrightarrow>
      fst (getCode env key w) = None \<and> caches (snd (getCode env key w)) = caches w \<and>
      retried (getCode env key) w) \<and>
   (\<not> lru_has (codeCache w) key \<and>
      (fst (getCode env key w) = None \<or> fst (getCode env key w) = Some '''' \<or>
       fst (getCode env key w) = Some ''0x'') \<longrightarrow>
      caches (snd (getCode env key w)) = caches w \<and> retried (getCode env key) w) \<and>
   (\<not> lru_has (eoaCache w) key \<and> \<not> lru_has (codeCache w) key \<and>
      threeFailures (\<lambda>t. provider_getCode env t key) (calls w) \<longrightarrow>
      fst (isEoa env key w) = None \<and> caches (snd (isEoa env key w)) = caches w \<and>
      retried (isEoa env key) w) \<and>
   (\<not> lru_has (eoaCache w) key \<and> \<not> lru_has (codeCache w) key \<and>
      fst (isEoa env key w) = None \<longrightarrow>
      caches (snd (isEoa env key w)) = caches w \<and> retried (isEoa env key) w) \<and>
   (\<not> lru_has (eoaCache w) key \<and> fst (getCode env key w) = Some ''0x'' \<longrightarrow>
      fst (isEoa env key w) = Some True \<and>
      eoaCache (snd (isEoa env key w)) = lru_set (eoaCache w) key True) \<and>
   (\<not> lru_has (nonceCache w) key \<and>
      threeFailures (\<lambda>t. provider_getTransactionCount env t key) (calls w) \<longrightarrow>
      fst (getNonce env key w) = 100000 \<and> caches (snd (getNonce env key w)) = caches w \<and>
      retried (getNonce env key) w) \<and>
   (\<not> lru_has (nonceCache w) key \<longrightarrow>
      (fst (getNonce env key w) = 100000 \<and> caches (snd (getNonce env key w)) = caches w \<and>
       retried (getNonce env key) w) \<or>
      (\<exists>i. provider_getTransactionCount env (calls w + i) key = Inr (fst (getNonce env key w)) \<and>
           nonceCache (snd (getNonce env key w)) =
             lru_set (nonceCache w) key (fst (getNonce env key w)))) \<and>
   (\<not> lru_has (functionCache w) key \<and>
      threeFailures (\<lambda>t. fetch_text env t (signatureDbUrl @ take 8 (drop 2 key))) (calls w) \<longrightarrow>
      isl (fst (getSignature env key w)) \<and> caches (snd (getSignature env key w)) = caches w \<and>
      retried (getSignature env key) w) \<and>
   (\<not> lru_has (functionCache w) key \<and>
      (isl (fst (getSignature env key w)) \<or> fst (getSignature env key w) = Inr None) \<longrightarrow>
      caches (snd (getSignature env key w)) = caches w \<and> retried (getSignature env key) w) \<and>
   (\<not> lru_has (ownerCache w) (key @ '' - '' @ show_nat block) \<and>
      isl (contract_owner env (calls w) key block) \<and>
      isl (contract_getOwner env (calls w + 1) key block) \<longrightarrow>
      ownerCache (snd (getOwner env key block w)) =
        lru_set (ownerCache w) (key @ '' - '' @ show_nat block) '''')"
proof -
  have code: "\<not> lru_has (codeCache w) key \<and> threeFailures (\<lambda>t. provider_getCode env t key) (calls w) \<longrightarrow>
      fst (getCode env key w) = None \<and> caches (snd (getCode env key w)) = caches w"
    by (simp add: getCode_def getCode_loop_exhausted caches_def exhausted_def)
  have code0: "\<not> lru_has (codeCache w) key \<and>
      (fst (getCode env key w) = None \<or> fst (getCode env key w) = Some '''' \<or>
       fst (getCode env key w) = Some ''0x'') \<longrightarrow>
      caches (snd (getCode env key w)) = caches w"
    using getCode_negative_caches [of w key env] by blast
  have codeR: "\<not> lru_has (codeCache w) key \<and> caches (snd (getCode env key w)) = caches w \<longrightarrow>
      retried (getCode env key) w"
    using retried_getCode [of w key env] by blast
  have eoa: "\<not> lru_has (eoaCache w) key \<and> \<not> lru_has (codeCache w) key \<and>
      threeFailures (\<lambda>t. provider_getCode env t key) (calls w) \<longrightarrow>
      fst (isEoa env key w) = None \<and> caches (snd (isEoa env key w)) = caches w"
    by (simp add: isEoa_def getCode_def getCode_loop_exhausted caches_def exhausted_def)
  have eoa0: "\<not> lru_has (eoaCache w) key \<and> \<not> lru_has (codeCache w) key \<and>
      fst (isEoa env key w) = None \<longrightarrow>
      caches (snd (isEoa env key w)) = caches w"
    using isEoa_undefined_caches [of w key env] by blast
  have eoaR: "\<not> lru_has (eoaCache w) key \<and> \<not> lru_has (codeCache w) key \<and>
      caches (snd (isEoa env key w)) = caches w \<longrightarrow> retried (isEoa env key) w"
    using retried_isEoa [of w key env] by blast
  have eoa1: "\<not> lru_has (eoaCache w) key \<and> fst (getCode env key w) = Some ''0x'' \<longrightarrow>
      fst (isEoa env key w) = Some True \<and>
      eoaCache (snd (isEoa env key w)) = lru_set (eoaCache w) key True"
    using isEoa_0x_cached [of w key env] by blast
  have nonce: "\<not> lru_has (nonceCache w) key \<and>
      threeFailures (\<lambda>t. provider_getTransactionCount env t key) (calls w) \<longrightarrow>
      fst (getNonce env key w) = 100000 \<and> caches (snd (getNonce env key w)) = caches w"
    by (simp add: getNonce_def getNonce_loop_exhausted caches_def exhausted_def)
  have nonce0: "\<not> lru_has (nonceCache w) key \<longrightarrow>
      (fst (getNonce env key w) = 100000 \<and> caches (snd (getNonce env key w)) = caches w) \<or>
      (\<exists>i. provider_getTransactionCount env (calls w + i) key = Inr (fst (getNonce env key w)) \<and>
           nonceCache (snd (getNonce env key w)) =
             lru_set (nonceCache w) key (fst (getNonce env key w)))"
    using getNonce_loop_stores [of env key 100000 0 w]
    by (simp add: getNonce_def)
  have nonceR: "\<not> lru_has (nonceCache w) key \<and> caches (snd (getNonce env key w)) = caches w \<longrightarrow>
      retried (getNonce env key) w"
    using retried_getNonce [of w key env] by blast
  have sig: "\<not> lru_has (functionCache w) key \<and>
      threeFailures (\<lambda>t. fetch_text env t (signatureDbUrl @ take 8 (drop 2 key))) (calls w) \<longrightarrow>
      isl (fst (getSignature env key w)) \<and> caches (snd (getSignature env key w)) = caches w"
    by (simp add: getSignature_def getSignature_loop_exhausted caches_def)
  have sig0: "\<not> lru_has (functionCache w) key \<and>
      (isl (fst (getSignature env key w)) \<or> fst (getSignature env key w) = Inr None) \<longrightarrow>
      caches (snd (getSignature env key w)) = caches w"
    using getSignature_negative_caches [of w key env] by blast
  have sigR: "\<not> lru_has (functionCache w) key \<and>
      caches (snd (getSignature env key w)) = caches w \<longrightarrow> retried (getSignature env key) w"
    using retried_getSignature [of w key env] by blast
  have owner: "\<not> lru_has (ownerCache w) (key @ '' - '' @ show_nat block) \<and>
      isl (contract_owner env (calls w) key block) \<and>
      isl (contract_getOwner env (calls w + 1) key block) \<longrightarrow>
      ownerCache (snd (getOwner env key block w)) =
        lru_set (ownerCache w) (key @ '' - '' @ show_nat block) ''''"
    by (auto simp: getOwner_def Let_def isl_def)
  have c1: "\<not> lru_has (codeCache w) key \<and> threeFailures (\<lambda>t. provider_getCode env t key) (calls w) \<longrightarrow>
      fst (getCode env key w) = None \<and> caches (snd (getCode env key w)) = caches w \<and>
      retried (getCode env key) w"
    using code codeR by blast
  have c2: "\<not> lru_has (codeCache w) key \<and>
      (fst (getCode env key w) = None \<or> fst (getCode env key w) = Some '''' \<or>
       fst (getCode env key w) = Some ''0x'') \<longrightarrow>
      caches (snd (getCode env key w)) = caches w \<and> retried (getCode env key) w"
    using code0 codeR by blast
  have c3: "\<not> lru_has (eoaCache w) key \<and> \<not> lru_has (codeCache w) key \<and>
      threeFailures (\<lambda>t. provider_getCode env t key) (calls w) \<longrightarrow>
      fst (isEoa env key w) = None \<and> caches (snd (isEoa env key w)) = caches w \<and>
      retried (isEoa env key) w"
    using eoa eoaR by blast
  have c4: "\<not> lru_has (eoaCache w) key \<and> \<not> lru_has (codeCache w) key \<and>
      fst (isEoa env key w) = None \<longrightarrow>
      caches (snd (isEoa env key w)) = caches w \<and> retried (isEoa env key) w"
    using eoa0 eoaR by blast
  have c6: "\<not> lru_has (nonceCache w) key \<and>
      threeFailures (\<lambda>t. provider_getTransactionCount env t key) (calls w) \<longrightarrow>
      fst (getNonce env key w) = 100000 \<and> caches (snd (getNonce env key w)) = caches w \<and>
      retried (getNonce env key) w"
    using nonce nonceR by blast
  have c7: "\<not> lru_has (nonceCache w) key \<longrightarrow>
      (fst (getNonce env key w) = 100000 \<and> caches (snd (getNonce env key w)) = caches w \<and>
       retried (getNonce env key) w) \<or>
      (\<exists>i. provider_getTransactionCount env (calls w + i) key = Inr (fst (getNonce env key w)) \<and>
           nonceCache (snd (getNonce env key w)) =
             lru_set (nonceCache w) key (fst (getNonce env key w)))"
    using nonce0 nonceR by blast
  have c8: "\<not> lru_has (functionCache w) key \<and>
      threeFailures (\<lambda>t. fetch_text env t (signatureDbUrl @ take 8 (drop 2 key))) (calls w) \<longrightarrow>
      isl (fst (getSignature env key w)) \<and> caches (snd (getSignature env key w)) = caches w \<and>
      retried (getSignature env key) w"
    using sig sigR by blast
  have c9: "\<not> lru_has (functionCache w) key \<and>
      (isl (fst (getSignature env key w)) \<or> fst (getSignature env key w) = Inr None) \<longrightarrow>
      caches (snd (getSignature env key w)) = caches w \<and> retried (getSignature env key) w"
    using sig0 sigR by blast
  from c1 c2 c3 c4 eoa1 c6 c7 c8 c9 owner show ?thesis by (intro conjI)
qed

theorem C1_failed_lookups_not_cached_witness:
  "threeFailures (\<lambda>t. provider_getCode env_down t ''0xabc'') (calls DataFetcher_new) \<and>
   caches (snd (getCode env_down ''0xabc'' DataFetcher_new)) = caches DataFetcher_new \<and>
   retried (getCode env_down ''0xabc'') DataFetcher_new \<and>
   fst (getCode env_late0x ''0xabc'' DataFetcher_new) = Some ''0x'' \<and>
   caches (snd (getCode env_late0x ''0xabc'' DataFetcher_new)) = caches DataFetcher_new \<and>
   retried (getCode env_late0x ''0xabc'') DataFetcher_new \<and>
   fst (isEoa env_down ''0xabc'' DataFetcher_new) = None \<and>
   caches (snd (isEoa env_down ''0xabc'' DataFetcher_new)) = caches DataFetcher_new \<and>
   fst (isEoa env_late0x ''0xabc'' DataFetcher_new) = Some True \<and>
   eoaCache (snd (isEoa env_late0x ''0xabc'' DataFetcher_new)) =
     lru_set (eoaCache DataFetcher_new) ''0xabc'' True \<and>
   fst (getNonce env_down ''0xabc'' DataFetcher_new) = 100000 \<and>
   caches (snd (getNonce env_down ''0xabc'' DataFetcher_new)) = caches DataFetcher_new \<and>
   isl (fst (getSignature env_down ''0xa9059cbb'' DataFetcher_new)) \<and>
   caches (snd (getSignature env_down ''0xa9059cbb'' DataFetcher_new)) = caches DataFetcher_new \<and>
   retried (getSignature env_down ''0xa9059cbb'') DataFetcher_new \<and>
   ownerCache (snd (getOwner env_down ''0xabc'' 5 DataFetcher_new)) =
     lru_set (ownerCache DataFetcher_new) ''0xabc - 5'' ''''"
proof -
  have late: "fst (getCode env_late0x ''0xabc'' DataFetcher_new) = Some ''0x''"
    by (simp add: getCode_def DataFetcher_new_simps getCode_loop.simps maxTries_def env_late0x_def
        called_def slept_def split_beta)
  show ?thesis
    using C1_failed_lookups_not_cached [where w = DataFetcher_new and key = "''0xabc''"
        and env = env_down and block = 5]
      C1_failed_lookups_not_cached [where w = DataFetcher_new and key = "''0xa9059cbb''"
        and env = env_down and block = 5]
      C1_failed_lookups_not_cached [where w = DataFetcher_new and key = "''0xabc''"
        and env = env_late0x and block = 5]
      late
    by (simp add: DataFetcher_new_simps env_down_simps threeFailures_def show_nat.simps)
qed

section \<open>C2: the fallbacks of getCode, getNonce and getStorageSlot\<close>

text \<open>
  C2. When the provider rejects the call three times in a row, \<open>getCode\<close> returns
  \<open>undefined\<close>, \<open>getNonce\<close> returns the sentinel 100000 and \<open>getStorageSlot\<close> returns
  \<open>undefined\<close>; each appends exactly one record to the error collector (for the third
  rejection, under the name of the operation) and changes nothing else but the counters.
  None of the three has a throwing outcome: each returns a value. For \<open>getCode\<close> and
  \<open>getNonce\<close> the address is not in the cache, since only then is the provider called.
\<close>

theorem C2_exhausted_fallbacks:
  "(\<not> lru_has (codeCache w) address \<and>
      threeFailures (\<lambda>t. provider_getCode env t address) (calls w) \<longrightarrow>
      getCode env address w =
        (None, exhausted (projl (provider_getCode env (calls w + 2) address))
                 ''fetcher.getCode'' w)) \<and>
   (\<not> lru_has (nonceCache w) address \<and>
      threeFailures (\<lambda>t. provider_getTransactionCount env t address) (calls w) \<longrightarrow>
      getNonce env address w =
        (100000, exhausted (projl (provider_getTransactionCount env (calls w + 2) address))
                   ''fetcher.getNonce'' w)) \<and>
   (threeFailures (\<lambda>t. provider_getStorageAt env t address slot blockNumber) (calls w) \<longrightarrow>
      getStorageSlot env address slot blockNumber w =
        (None, exhausted (projl (provider_getStorageAt env (calls w + 2) address slot blockNumber))
                 ''fetcher.getStorageSlot'' w))"
  by (simp add: getCode_def getNonce_def getStorageSlot_def getCode_loop_exhausted
        getNonce_loop_exhausted getStorageSlot_loop_exhausted)

theorem C2_exhausted_fallbacks_witness:
  "\<not> lru_has (codeCache DataFetcher_new) ''0xabc'' \<and>
   \<not> lru_has (nonceCache DataFetcher_new) ''0xabc'' \<and>
   threeFailures (\<lambda>t. provider_getCode env_down t ''0xabc'') (calls DataFetcher_new) \<and>
   threeFailures (\<lambda>t. provider_getTransactionCount env_down t ''0xabc'') (calls DataFetcher_new) \<and>
   threeFailures (\<lambda>t. provider_getStorageAt env_down t ''0xabc'' 0 17) (calls DataFetcher_new) \<and>
   getCode env_down ''0xabc'' DataFetcher_new =
     (None, exhausted timeout ''fetcher.getCode'' DataFetcher_new) \<and>
   getNonce env_down ''0xabc'' DataFetcher_new =
     (100000, exhausted timeout ''fetcher.getNonce'' DataFetcher_new) \<and>
   getStorageSlot env_down ''0xabc'' 0 17 DataFetcher_new =
     (None, exhausted timeout ''fetcher.getStorageSlot'' DataFetcher_new) \<and>
   ErrorCache (exhausted timeout ''fetcher.getCode'' DataFetcher_new) =
     [createErrorAlert ''Error: timeout'' ''fetcher.getCode'' ''Error: timeout at fetch'']"
  using C2_exhausted_fallbacks [of DataFetcher_new "''0xabc''" env_down 0 17]
  by (simp add: threeFailures_def env_down_def lru_has_def DataFetcher_new_def LRU_new_def
        exhausted_def timeout_def)

section \<open>C3: getSignature alone throws when its retries are exhausted\<close>



section \<open>C4: isEoa\<close>

text \<open>
  C4. For an address that \<open>eoaCache\<close> does not hold yet, \<open>isEoa\<close> returns \<open>true\<close>
  exactly when the code that \<open>getCode\<close> fetched is \<open>"0x"\<close>, \<open>false\<close> when the code is
  another non-empty string, and \<open>undefined\<close> when \<open>getCode\<close> returned \<open>undefined\<close>, as
  it does after three rejections. For an address with bytecode, \<open>isEoa\<close> returns
  \<open>false\<close>, and the next \<open>isEoa\<close> for the address returns \<open>false\<close> from the cache
  without a remote call, whatever the services would answer then.
\<close>

theorem C4_isEoa:
  "(\<not> lru_has (eoaCache w) address \<longrightarrow>
      (fst (isEoa env address w) = Some True \<longleftrightarrow> fst (getCode env address w) = Some ''0x'') \<and>
      (fst (getCode env address w) = Some code \<and> code \<noteq> '''' \<and> code \<noteq> ''0x'' \<longrightarrow>
         fst (isEoa env address w) = Some False) \<and>
      (fst (getCode env address w) = None \<longrightarrow> fst (isEoa env address w) = None)) \<and>
   (\<not> lru_has (eoaCache w) address \<and> \<not> lru_has (codeCache w) address \<and>
      threeFailures (\<lambda>t. provider_getCode env t address) (calls w) \<longrightarrow>
      fst (isEoa env address w) = None) \<and>
   (\<not> lru_has (eoaCache w) address \<and> 0 < lru_max (eoaCache w) \<and>
      fst (getCode env address w) = Some code \<and> code \<noteq> '''' \<and> code \<noteq> ''0x'' \<longrightarrow>
      fst (isEoa env address w) = Some False \<and>
      fst (isEoa env' address (snd (isEoa env address w))) = Some False \<and>
      calls (snd (isEoa env' address (snd (isEoa env address w)))) =
        calls (snd (isEoa env address w)))"
proof -
  have a: "fst (isEoa env address w) = Some True \<longleftrightarrow> fst (getCode env address w) = Some ''0x''"
    if "\<not> lru_has (eoaCache w) address"
    using that by (auto simp: isEoa_def split_beta split: option.splits if_splits)
  have b: "fst (isEoa env address w) = Some False"
    if "\<not> lru_has (eoaCache w) address" "fst (getCode env address w) = Some code"
      "code \<noteq> ''''" "code \<noteq> ''0x''"
    using that by (auto simp: isEoa_def split_beta split: option.splits if_splits)
  have c: "fst (isEoa env address w) = None"
    if "\<not> lru_has (eoaCache w) address" "fst (getCode env address w) = None"
    using that by (auto simp: isEoa_def split_beta split: option.splits if_splits)
  have d: "fst (isEoa env address w) = None"
    if "\<not> lru_has (eoaCache w) address" "\<not> lru_has (codeCache w) address"
      "threeFailures (\<lambda>t. provider_getCode env t address) (calls w)"
    using that by (simp add: isEoa_def getCode_def getCode_loop_exhausted)
  have e: "fst (isEoa env' address (snd (isEoa env address w))) = Some False \<and>
      calls (snd (isEoa env' address (snd (isEoa env address w)))) =
        calls (snd (isEoa env address w))"
    if h: "\<not> lru_has (eoaCache w) address" "0 < lru_max (eoaCache w)"
      "fst (getCode env address w) = Some code" "code \<noteq> ''''" "code \<noteq> ''0x''"
  proof -
    define w0 where "w0 = snd (getCode env address w)"
    have g: "getCode env address w = (Some code, w0)"
      using h(3) by (simp add: w0_def prod_eq_iff)
    have e0: "eoaCache w0 = eoaCache w"
      by (simp add: w0_def getCode_eoaCache)
    have first: "isEoa env address w = (Some False, w0\<lparr>eoaCache := lru_set (eoaCache w0) address False\<rparr>)"
      using h by (simp add: isEoa_def g)
    have hit: "fst (lru_get (eoaCache (w0\<lparr>eoaCache := lru_set (eoaCache w0) address False\<rparr>)) address)
      = Some False"
      using h(2) by (simp add: lru_get_set e0)
    show ?thesis
      using isEoa_hit [OF hit, of env'] by (simp add: first)
  qed
  from a b c d e show ?thesis by blast
qed

theorem C4_isEoa_witness:
  "\<not> lru_has (eoaCache DataFetcher_new) ''0xabc'' \<and>
   fst (getCode (env_code ''0x'') ''0xabc'' DataFetcher_new) = Some ''0x'' \<and>
   fst (isEoa (env_code ''0x'') ''0xabc'' DataFetcher_new) = Some True \<and>
   fst (getCode (env_code ''0x6080'') ''0xabc'' DataFetcher_new) = Some ''0x6080'' \<and>
   fst (isEoa (env_code ''0x6080'') ''0xabc'' DataFetcher_new) = Some False \<and>
   fst (isEoa env_down ''0xabc'' DataFetcher_new) = None \<and>
   fst (isEoa env_down ''0xabc'' (snd (isEoa (env_code ''0x6080'') ''0xabc'' DataFetcher_new))) =
     Some False \<and>
   calls (snd (isEoa env_down ''0xabc'' (snd (isEoa (env_code ''0x6080'') ''0xabc'' DataFetcher_new)))) =
     calls (snd (isEoa (env_code ''0x6080'') ''0xabc'' DataFetcher_new))"
proof -
  have g: "fst (getCode (env_code c) ''0xabc'' DataFetcher_new) = Some c" for c
    by (simp add: getCode_def DataFetcher_new_simps getCode_loop.simps maxTries_def env_code_def
        split_beta)
  show ?thesis
    using C4_isEoa [of DataFetcher_new "''0xabc''" "env_code ''0x''" "''0x''" env_down]
      C4_isEoa [of DataFetcher_new "''0xabc''" "env_code ''0x6080''" "''0x6080''" env_down]
      C4_isEoa [of DataFetcher_new "''0xabc''" env_down "''0x6080''" env_down]
    by (simp add: g DataFetcher_new_simps DataFetcher_new_room env_down_simps threeFailures_def)
qed

section \<open>C5: a second call with the same key\<close>




section \<open>C6: how often and how fast each remote call is retried\<close>




section \<open>C7: a counterparty shared by a majority of the victims\<close>

text \<open>
  C7. When every leg fetches a history (\<open>H v\<close> for the victim \<open>v\<close>),
  \<open>haveInteractedWithSameAddress\<close> returns \<open>true\<close> exactly when some counterparty of a
  victim is a counterparty of at least \<open>ceil(victims.length / 2)\<close> of the victims, and
  \<open>false\<close> otherwise. In particular, with four victims the threshold is two, and two
  victims that share a counterparty make the result \<open>true\<close>.
\<close>

theorem C7_majority_counterparty:
  assumes "fetched cfg env chainId victims w = map (\<lambda>v. Some (H v)) victims"
  shows "(fst (haveInteractedWithSameAddress cfg env attacker victims chainId w) \<longleftrightarrow>
       (\<exists>a. (\<exists>v\<in>set victims. a \<in> counterparties attacker v (H v)) \<and>
            (length victims + 1) div 2 \<le>
              card {v \<in> set victims. a \<in> counterparties attacker v (H v)})) \<and>
     (length victims = 4 \<and> p \<in> set victims \<and> q \<in> set victims \<and> p \<noteq> q \<and>
        a \<in> counterparties attacker p (H p) \<and> a \<in> counterparties attacker q (H q) \<longrightarrow>
        fst (haveInteractedWithSameAddress cfg env attacker victims chainId w))"
proof -
  let ?f = "\<lambda>v. Array_from_Set (filter (\<lambda>to. to \<notin> set [attacker, v]) (map tx_to (H v)))"
  let ?vi = "foldl (\<lambda>vi v. AList.update v (?f v) vi) [] victims"
  let ?n = "(length victims + 1) div 2"
  from legs_fetched [OF assms, of attacker False "[]"]
  obtain w1 where legs:
    "foldl (\<lambda>acc victim. victimLeg cfg env attacker chainId victim acc) (False, [], w) victims =
       (False, ?vi, w1)"
    by blast
  have rec: "recorded (frequencies ?vi) =
      {(v, a). v \<in> set victims \<and> a \<in> counterparties attacker v (H v)}"
    by (unfold frequencies_shape(2) updates_set) (auto simp: set_Array_from_Set counterparties_def)
  have res: "fst (haveInteractedWithSameAddress cfg env attacker victims chainId w) \<longleftrightarrow>
      list_ex (\<lambda>(address, vs). length vs \<ge> ?n) (frequencies ?vi)"
    by (simp add: haveInteractedWithSameAddress_def legs Let_def)
  have main: "fst (haveInteractedWithSameAddress cfg env attacker victims chainId w) \<longleftrightarrow>
       (\<exists>a. (\<exists>v\<in>set victims. a \<in> counterparties attacker v (H v)) \<and>
            ?n \<le> card {v \<in> set victims. a \<in> counterparties attacker v (H v)})"
    unfolding res majority_iff [OF frequencies_shape(1)] rec by auto
  have four: "fst (haveInteractedWithSameAddress cfg env attacker victims chainId w)"
    if h: "length victims = 4" "p \<in> set victims" "q \<in> set victims" "p \<noteq> q"
      "a \<in> counterparties attacker p (H p)" "a \<in> counterparties attacker q (H q)"
  proof -
    have "{p, q} \<subseteq> {v \<in> set victims. a \<in> counterparties attacker v (H v)}"
      using h by auto
    then have "card {p, q} \<le> card {v \<in> set victims. a \<in> counterparties attacker v (H v)}"
      by (intro card_mono) auto
    with h have "?n \<le> card {v \<in> set victims. a \<in> counterparties attacker v (H v)}"
      by simp
    with h(2,5) show ?thesis
      unfolding main by blast
  qed
  from main four show ?thesis by blast
qed

theorem C7_majority_counterparty_witness:
  "fetched cfg0 (env_histories H_shared) 1 fourVictims DataFetcher_new =
     map (\<lambda>v. Some (H_shared v)) fourVictims \<and>
   length fourVictims = 4 \<and>
   ''0xmixer'' \<in> counterparties ''0xatt'' ''0xv1'' (H_shared ''0xv1'') \<and>
   ''0xmixer'' \<in> counterparties ''0xatt'' ''0xv2'' (H_shared ''0xv2'') \<and>
   fst (haveInteractedWithSameAddress cfg0 (env_histories H_shared) ''0xatt'' fourVictims 1
         DataFetcher_new) = True \<and>
   fetched cfg0 (env_histories H_apart) 1 fourVictims DataFetcher_new =
     map (\<lambda>v. Some (H_apart v)) fourVictims \<and>
   fst (haveInteractedWithSameAddress cfg0 (env_histories H_apart) ''0xatt'' fourVictims 1
         DataFetcher_new) = False \<and>
   \<not> (\<exists>a. (\<exists>v\<in>set fourVictims. a \<in> counterparties ''0xatt'' v (H_apart v)) \<and>
          (length fourVictims + 1) div 2 \<le>
            card {v \<in> set fourVictims. a \<in> counterparties ''0xatt'' v (H_apart v)})"
proof -
  have m1: "''0xmixer'' \<in> counterparties ''0xatt'' ''0xv1'' (H_shared ''0xv1'')"
    and m2: "''0xmixer'' \<in> counterparties ''0xatt'' ''0xv2'' (H_shared ''0xv2'')"
    by (simp_all add: counterparties_def H_shared_def tx_def)
  have v: "length fourVictims = 4" "''0xv1'' \<in> set fourVictims" "''0xv2'' \<in> set fourVictims"
    by (simp_all add: fourVictims_def)
  from C7_majority_counterparty [where cfg = cfg0 and env = "env_histories H_shared" and chainId = 1
      and victims = fourVictims and w = DataFetcher_new and H = H_shared and attacker = "''0xatt''"
      and p = "''0xv1''" and q = "''0xv2''" and a = "''0xmixer''", OF fetched_histories, THEN conjunct2] m1 m2 v
  have shared: "fst (haveInteractedWithSameAddress cfg0 (env_histories H_shared) ''0xatt''
      fourVictims 1 DataFetcher_new)"
    by simp
  from C7_majority_counterparty [where cfg = cfg0 and env = "env_histories H_apart" and chainId = 1
      and victims = fourVictims and w = DataFetcher_new and H = H_apart and attacker = "''0xatt''"
      and p = "''0xv1''" and q = "''0xv2''" and a = "''0xmixer''", OF fetched_histories]
    apart_evaluated
  have apart: "\<not> (\<exists>a. (\<exists>v\<in>set fourVictims. a \<in> counterparties ''0xatt'' v (H_apart v)) \<and>
          (length fourVictims + 1) div 2 \<le>
            card {v \<in> set fourVictims. a \<in> counterparties ''0xatt'' v (H_apart v)})"
    by blast
  from shared apart apart_evaluated m1 m2 v(1)
    fetched_histories [of H_shared fourVictims DataFetcher_new]
    fetched_histories [of H_apart fourVictims DataFetcher_new]
  show ?thesis
    by simp
qed

section \<open>C8: a zero-value transfer before the target hash\<close>

text \<open>
  C8. On a fetched history, when every entry that carries the target hash at an index
  \<open>i \<ge> 3\<close> has an entry of value \<open>"0"\<close> among the three before it, \<open>hasValidEntries\<close>
  returns \<open>false\<close>: whether the senders of the window are distinct does not matter. The
  claim's case is the history with one entry of the target hash. In the witness the
  window of \<open>0xh4\<close> has three distinct senders and one zero value; the same history
  without the zero value gives \<open>true\<close>.
\<close>

theorem C8_zero_value_in_window:
  assumes "explorerLoop env (getEtherscanAddressUrl cfg address chainId (toTxCountThreshold cfg)) 1 w =
      (Some result, w1)"
    and "\<forall>i<length (resp_result result). tx_hash (resp_result result ! i) = hash \<and> 3 \<le> i \<longrightarrow>
      (\<exists>k. i - 3 \<le> k \<and> k < i \<and> tx_value (resp_result result ! k) = ''0'')"
  shows "fst (hasValidEntries cfg env address chainId hash w) = False"
proof -
  have "\<not> validEntriesScan hash (resp_result result)"
    using assms(2) by (auto simp: validEntriesScan_iff dest: hasZeroValue_window)
  then show ?thesis
    using assms(1) by (simp add: hasValidEntries_def del: One_nat_def)
qed

theorem C8_zero_value_in_window_witness:
  "explorerLoop (env_replies history_zero)
     (getEtherscanAddressUrl cfg0 ''0xme'' 1 (toTxCountThreshold cfg0)) 1 DataFetcher_new =
     (Some \<lparr>resp_message = ''OK'', resp_result = history_zero\<rparr>, DataFetcher_new\<lparr>calls := 1\<rparr>) \<and>
   tx_hash (history_zero ! 4) = ''0xh4'' \<and> tx_value (history_zero ! 2) = ''0'' \<and>
   \<not> hasDuplicateFrom (slice 1 4 history_zero) \<and>
   fst (hasValidEntries cfg0 (env_replies history_zero) ''0xme'' 1 ''0xh4'' DataFetcher_new) = False \<and>
   fst (hasValidEntries cfg0 (env_replies history_clean) ''0xme'' 1 ''0xh4'' DataFetcher_new) = True"
proof -
  have fetched: "explorerLoop (env_replies history_zero)
     (getEtherscanAddressUrl cfg0 ''0xme'' 1 (toTxCountThreshold cfg0)) 1 DataFetcher_new =
     (Some \<lparr>resp_message = ''OK'', resp_result = history_zero\<rparr>, DataFetcher_new\<lparr>calls := 1\<rparr>)"
    by (simp add: getEtherscanAddressUrl_def cfg0_simps explorerLoop_first env_replies_simp
        not_softFailure_OK DataFetcher_new_simps del: One_nat_def)
  have window: "\<forall>i<length (resp_result \<lparr>resp_message = ''OK'', resp_result = history_zero\<rparr>).
      tx_hash (resp_result \<lparr>resp_message = ''OK'', resp_result = history_zero\<rparr> ! i) = ''0xh4'' \<and> 3 \<le> i \<longrightarrow>
      (\<exists>k. i - 3 \<le> k \<and> k < i \<and>
         tx_value (resp_result \<lparr>resp_message = ''OK'', resp_result = history_zero\<rparr> ! k) = ''0'')"
  proof (intro allI impI)
    fix i
    assume "i < length (resp_result \<lparr>resp_message = ''OK'', resp_result = history_zero\<rparr>)"
      and h: "tx_hash (resp_result \<lparr>resp_message = ''OK'', resp_result = history_zero\<rparr> ! i) = ''0xh4'' \<and> 3 \<le> i"
    then have "i = 3 \<or> i = 4"
      by (auto simp: history_zero_def)
    with h have "i = 4"
      by (auto simp: history_zero_def tx_def)
    then show "\<exists>k. i - 3 \<le> k \<and> k < i \<and>
         tx_value (resp_result \<lparr>resp_message = ''OK'', resp_result = history_zero\<rparr> ! k) = ''0''"
      by (intro exI [of _ 2]) (simp add: history_zero_def tx_def)
  qed
  have clean: "fst (hasValidEntries cfg0 (env_replies history_clean) ''0xme'' 1 ''0xh4'' DataFetcher_new) = True"
    by (simp add: hasValidEntries_def getEtherscanAddressUrl_def cfg0_simps explorerLoop_first
        env_replies_simp not_softFailure_OK DataFetcher_new_simps validEntriesScan_def
        history_clean_def tx_def slice_def hasZeroValue_def hasDuplicateFrom_def upt_rec
        del: One_nat_def)
  have nodup: "\<not> hasDuplicateFrom (slice 1 4 history_zero)"
    by (simp add: history_zero_def tx_def slice_def hasDuplicateFrom_def upt_rec)
  show ?thesis
    using C8_zero_value_in_window [OF fetched window] fetched clean nodup
    by (simp add: history_zero_def tx_def)
qed

section \<open>C9: the large-position bot\<close>

text \<open>
  C9 at an input where the bot misses it. In the shipped \<open>VAULTS_MAP\<close> the vault
  0xbff4...3afe has the threshold 30000000000000000000. A \<open>Work\<close> event of that vault
  with the loan 30000000000000000001 exceeds it, and \<open>handleTransaction\<close> returns no
  finding: \<open>parseInt\<close> rounds the loan to the double 30000000000000000000, which is not
  above the threshold.
\<close>

theorem C9_loan_above_threshold_no_alert:
  "VAULTS_MAP ''0xbff4a34a4644a113e8200d7f1d79b3555f723afe'' = Some 30000000000000000000 \<and>
   (30000000000000000000 :: int) < 30000000000000000001 \<and>
   handleTransaction
     [\<lparr>ev_address = ''0xbff4a34a4644a113e8200d7f1d79b3555f723afe'', ev_id = 7,
       ev_loan = 30000000000000000001\<rparr>] = []"
  by (simp add: handleTransaction_def handleTransaction_single VAULTS_MAP_eth toDouble_def
      bitlen.simps)

section \<open>C10: the sentinel of getNumberOfLogs\<close>

text \<open>
  C10. When the three attempts of \<open>getNumberOfLogs\<close> all fail, each by a rejected fetch
  or by a soft-failure message, the operation returns the number 10: not \<open>undefined\<close>,
  not zero, and no exception (it has no throwing outcome here). A caller cannot tell this
  10 from a count: a usable reply with ten entries returns the same number.
\<close>

theorem C10_getNumberOfLogs_sentinel:
  "(etherscanApis cfg chainId \<and>
      threeFailedAttempts env (LogsUrl address blockNumber chainId) (calls w) \<longrightarrow>
      getNumberOfLogs cfg env address blockNumber chainId w = (10, w\<lparr>calls := calls w + 3\<rparr>)) \<and>
   (etherscanApis cfg chainId \<and>
      fetch_explorer env (calls w) (LogsUrl address blockNumber chainId) = Inr result \<and>
      \<not> softFailure result \<and> length (resp_result result) = 10 \<longrightarrow>
      fst (getNumberOfLogs cfg env address blockNumber chainId w) = 10)"
  by (simp add: getNumberOfLogs_def getLogsUrl_def explorerLoop_exhausted explorerLoop_first
        del: One_nat_def)

theorem C10_getNumberOfLogs_sentinel_witness:
  "etherscanApis cfg0 1 \<and>
   threeFailedAttempts env_down (LogsUrl ''0xabc'' 17 1) (calls DataFetcher_new) \<and>
   threeFailedAttempts env_notok (LogsUrl ''0xabc'' 17 1) (calls DataFetcher_new) \<and>
   fst (getNumberOfLogs cfg0 env_down ''0xabc'' 17 1 DataFetcher_new) = 10 \<and>
   fst (getNumberOfLogs cfg0 env_notok ''0xabc'' 17 1 DataFetcher_new) = 10 \<and>
   fst (getNumberOfLogs cfg0 (env_replies (replicate 10 blank)) ''0xabc'' 17 1 DataFetcher_new) = 10"
  using C10_getNumberOfLogs_sentinel [of cfg0 1 env_down "''0xabc''" 17 DataFetcher_new]
    C10_getNumberOfLogs_sentinel [of cfg0 1 env_notok "''0xabc''" 17 DataFetcher_new]
    C10_getNumberOfLogs_sentinel [of cfg0 1 "env_replies (replicate 10 blank)" "''0xabc''" 17 DataFetcher_new
      "\<lparr>resp_message = ''OK'', resp_result = replicate 10 blank\<rparr>"]
  by (simp add: threeFailedAttempts_def failedAttempt_def env_down_def env_notok_def env_replies_def
      cfg0_def softFailure_def startsWith_def)

end
